theory Spec2Isabelle
  imports Main "HOL-Library.Word"
begin

section \<open>Basic types: sequences, errors, formatted messages\<close>

text \<open>
  Ledger sequences are Go \<open>uint32\<close> values: arithmetic wraps around and the order is
  the unsigned one. A Go \<open>error\<close> is modelled by its message: \<open>None\<close> is \<open>nil\<close>,
  \<open>Some msg\<close> an error whose \<open>Error()\<close> string is \<open>msg\<close>.
\<close>

type_synonym u32 = "32 word"
type_synonym byte = "8 word"
type_synonym error = string

text \<open>\<open>errors.Wrap(err, msg)\<close> prefixes the message of the wrapped error.\<close>

definition Wrap :: "error \<Rightarrow> string \<Rightarrow> error" where
  "Wrap e msg = msg @ '': '' @ e"

text \<open>The verb \<open>%d\<close> of the format functions: decimal digits, most significant first.\<close>

definition digit :: "nat \<Rightarrow> char" where
  "digit n = ''0123456789'' ! n"

function decimal :: "nat \<Rightarrow> string" where
  "decimal n = (if n < 10 then [digit n] else decimal (n div 10) @ [digit (n mod 10)])"
  by pat_completeness auto
termination
  by (relation "measure id") auto

declare decimal.simps [simp del]

definition fmt_d :: "u32 \<Rightarrow> string" where
  "fmt_d w = decimal (unat w)"

text \<open>\<open>hex.EncodeToString\<close>: two lower-case hexadecimal digits for every byte.\<close>

definition hexDigit :: "nat \<Rightarrow> char" where
  "hexDigit n = ''0123456789abcdef'' ! n"

definition EncodeToString :: "byte list \<Rightarrow> string" where
  "EncodeToString bs = concat (map (\<lambda>b. [hexDigit (unat b div 16), hexDigit (unat b mod 16)]) bs)"

section \<open>Ledger data\<close>

text \<open>
  The fields of \<open>xdr.LedgerHeader\<close> that the ingestion code reads. A
  \<open>LedgerCloseMeta\<close> carries its header; \<open>payload\<close> stands for the transaction set and
  the per-transaction results, which no function modelled here inspects.
\<close>

record LedgerHeader =
  LedgerSeq :: u32
  LedgerVersion :: u32
  PreviousLedgerHash :: "byte list"
  BucketListHash :: "byte list"

record LedgerCloseMeta =
  Header :: LedgerHeader
  payload :: nat

definition LedgerSequence :: "LedgerCloseMeta \<Rightarrow> u32" where
  "LedgerSequence m = LedgerSeq (Header m)"

text \<open>The zero value \<open>xdr.LedgerCloseMeta{}\<close> returned next to an error.\<close>

definition emptyMeta :: LedgerCloseMeta where
  "emptyMeta = \<lparr>Header = \<lparr>LedgerSeq = 0, LedgerVersion = 0, PreviousLedgerHash = [],
     BucketListHash = []\<rparr>, payload = 0\<rparr>"

section \<open>The history archive as seen by the captive backend\<close>

text \<open>
  \<open>archive.GetRootHAS()\<close> yields the current checkpoint ledger or an error,
  \<open>archive.GetLedgerHeader(seq)\<close> a header or an error. The package functions
  \<open>historyarchive.IsCheckpoint\<close> and \<open>historyarchive.PrevCheckpoint\<close> are defined in
  package \<open>historyarchive\<close>, which is not among the source files; they are parameters
  of the model.
\<close>

record Archive =
  GetRootHAS :: "error + u32"
  GetLedgerHeader :: "u32 \<Rightarrow> error + LedgerHeader"
  IsCheckpoint :: "u32 \<Rightarrow> bool"
  PrevCheckpoint :: "u32 \<Rightarrow> u32"

section \<open>runFromParams\<close>

text \<open>
  The Go function has named results \<open>(runFrom, ledgerHash, nextLedger, err)\<close>; a bare
  \<open>return\<close> hands back whatever they hold at that point, so the model returns all four
  on every path.
\<close>

definition runFromParams :: "Archive \<Rightarrow> u32 \<Rightarrow> u32 \<times> string \<times> u32 \<times> error option" where
  "runFromParams a from0 =
     (if from0 = 1 then
        (0, [], 0, Some ''CaptiveCore is unable to start from ledger 1, start from ledger 2'')
      else
        let (from1, nextLedger) =
              (if from0 \<le> 63 then (3, 2)
               else
                 let f = (if \<not> IsCheckpoint a from0 then PrevCheckpoint a from0 else from0);
                     n = f - 63
                 in (f, if n < 2 then 2 else n));
            runFrom = from1 - 1
        in case GetLedgerHeader a from1 of
             Inl err2 \<Rightarrow>
               (runFrom, [], nextLedger,
                Some (Wrap err2 (''error trying to read ledger header '' @ fmt_d from1 @ '' from HAS'')))
           | Inr ledgerHeader \<Rightarrow>
               (runFrom, EncodeToString (PreviousLedgerHash ledgerHeader), nextLedger, None))"


section \<open>The captive backend\<close>

text \<open>
  The backend runs a goroutine, \<open>sendLedgerMeta\<close>, that reads ledgers from the pipe of
  the subprocess and pushes them into the buffered channel \<open>metaC\<close>; \<open>GetLedger\<close> is
  its only consumer. The model is sequential. The state holds the content of the channel
  and what the pipe has still to deliver; \<open>sendLedgerMeta\<close> is one turn of the
  goroutine's loop. The goroutine takes a turn when the consumer waits on the empty
  channel, and may take turns between two calls of the backend; a function that would
  wait for ever returns \<open>None\<close>.
\<close>

subsection \<open>Ranges, the runner and the state of the backend\<close>

text \<open>
  \<open>Range\<close> has the fields the backend reads: \<open>ledgerRange.from\<close>, \<open>ledgerRange.to\<close>
  and \<open>ledgerRange.bounded\<close> (\<open>from\<close> and \<open>to\<close> are reserved words here, hence the
  prefix). \<open>BoundedRange\<close> and \<open>UnboundedRange\<close> are its two constructors.
\<close>

record Range =
  range_from :: u32
  range_to :: u32
  bounded :: bool

definition BoundedRange :: "u32 \<Rightarrow> u32 \<Rightarrow> Range" where
  "BoundedRange f t = \<lparr>range_from = f, range_to = t, bounded = True\<rparr>"

definition UnboundedRange :: "u32 \<Rightarrow> Range" where
  "UnboundedRange f = \<lparr>range_from = f, range_to = 0, bounded = False\<rparr>"

text \<open>
  One read of the metadata pipe by \<open>xdr.UnmarshalFramed\<close>: a decoded frame, \<open>io.EOF\<close>,
  or another decoding error.
\<close>

datatype pipeRead = Frame LedgerCloseMeta | EOF | Failure error

text \<open>
  \<open>hcnetCoreRunnerInterface\<close>, the subprocess as the backend sees it: what \<open>catchup\<close>,
  \<open>runFrom\<close> and \<open>close\<close> return, the reads that the pipe of \<open>getMetaPipe()\<close> still has
  to deliver (\<open>None\<close> is the \<open>nil\<close> pipe), and what a non-blocking receive on
  \<open>getProcessExitChan()\<close> finds once a read has failed (\<open>None\<close>: nothing, \<open>Some None\<close>:
  the process exited with \<open>nil\<close>, \<open>Some (Some e)\<close>: it exited with error \<open>e\<close>).
\<close>

record Runner =
  catchupResult :: "error option"
  runFromResult :: "error option"
  metaPipe :: "pipeRead list option"
  processExitChan :: "error option option"
  closeResult :: "error option"

text \<open>The calls made on runner objects, in order, as a mock runner records them.\<close>

datatype runnerCall = CallCatchup u32 u32 | CallRunFrom u32 string | CallClose

text \<open>An item of the read-ahead channel: \<open>metaResult{nil, err}\<close> or \<open>metaResult{meta, nil}\<close>.\<close>

type_synonym metaResult = "error + LedgerCloseMeta"

text \<open>
  The mutable fields of \<open>CaptiveHcnetCore\<close>.
  \<^item> \<open>shutdown\<close> holds when the channel \<open>c.shutdown\<close> is not \<open>nil\<close>.
  \<^item> \<open>metaC\<close> is the content of the buffered channel, oldest item first, so that
    \<open>len(c.metaC)\<close> is its length.
  \<^item> \<open>reading\<close> is the goroutine \<open>sendLedgerMeta(untilSequence)\<close>: \<open>Some untilSequence\<close>
    while it runs, \<open>None\<close> when none runs.
  \<^item> \<open>calls\<close> logs the calls made on runners; no Go field corresponds to it.
\<close>

record CaptiveHcnetCore =
  shutdown :: bool
  metaC :: "metaResult list"
  reading :: "u32 option"
  hcnetCoreRunner :: "Runner option"
  cachedMeta :: "LedgerCloseMeta option"
  blocking :: bool
  nextLedger :: u32
  lastLedger :: "u32 option"
  processExit :: bool
  processErr :: "error option"
  calls :: "runnerCall list"

text \<open>The fields a backend is created with and never changes.\<close>

record CaptiveConfig =
  archive :: Archive
  configPath :: string
  hcnetCoreRunnerFactory :: "string \<Rightarrow> error + Runner"

text \<open>The backend as \<open>NewCaptive\<close> leaves it: no session, \<open>nextLedger = 0\<close>.\<close>

definition NewCaptive :: CaptiveHcnetCore where
  "NewCaptive = \<lparr>shutdown = False, metaC = [], reading = None, hcnetCoreRunner = None,
     cachedMeta = None, blocking = False, nextLedger = 0, lastLedger = None,
     processExit = False, processErr = None, calls = []\<rparr>"

definition readAheadBufferSize :: nat where
  "readAheadBufferSize = 2"

text \<open>
  Modelled from the spec: the constant \<open>ledgersPerCheckpoint\<close> is declared in a file
  that is not among the source files; the spec gives
  \<open>round_down(L) = max(2, L - (L mod 64))\<close>.
\<close>

definition ledgersPerCheckpoint :: u32 where
  "ledgersPerCheckpoint = 64"

definition roundDownToFirstReplayAfterCheckpointStart :: "u32 \<Rightarrow> u32" where
  "roundDownToFirstReplayAfterCheckpointStart ledger =
     (let v = (ledger div ledgersPerCheckpoint) * ledgersPerCheckpoint
      in if v = 0 then 2 else v)"

definition isClosed :: "CaptiveHcnetCore \<Rightarrow> bool" where
  "isClosed c = (nextLedger c = 0)"

subsection \<open>Close\<close>

text \<open>
  \<open>Close\<close> resets \<open>nextLedger\<close> and \<open>lastLedger\<close>, stops the reading goroutine when a
  session exists (\<open>close(c.shutdown)\<close>, \<open>c.wait.Wait()\<close>, \<open>close(c.metaC)\<close>: the items
  buffered in the closed channel stay in it), and closes the runner. It does not touch
  \<open>cachedMeta\<close>. The wait for the goroutine is taken to end.
\<close>

definition Close :: "CaptiveHcnetCore \<Rightarrow> error option \<times> CaptiveHcnetCore" where
  "Close c =
     (let c1 = c\<lparr>nextLedger := 0, lastLedger := None\<rparr>;
          c2 = (if shutdown c1 then c1\<lparr>reading := None, shutdown := False\<rparr> else c1)
      in case hcnetCoreRunner c2 of
           None \<Rightarrow> (None, c2)
         | Some r \<Rightarrow>
             (let c3 = c2\<lparr>hcnetCoreRunner := None, calls := calls c2 @ [CallClose]\<rparr>
              in case closeResult r of
                   Some err \<Rightarrow> (Some (Wrap err ''error closing hcnet-core subprocess''), c3)
                 | None \<Rightarrow> (None, c3)))"

subsection \<open>The reading goroutine\<close>

text \<open>
  \<open>readLedgerMetaFromPipe\<close>: \<open>None\<close> when the read blocks because the pipe has nothing
  to deliver (or no runner exists, which does not happen while the goroutine runs).
\<close>

definition readLedgerMetaFromPipe ::
    "CaptiveHcnetCore \<Rightarrow> ((error + LedgerCloseMeta) \<times> CaptiveHcnetCore) option" where
  "readLedgerMetaFromPipe c =
     (case hcnetCoreRunner c of
        None \<Rightarrow> None
      | Some r \<Rightarrow>
          (case metaPipe r of
             None \<Rightarrow> Some (Inl ''missing metadata pipe'', c)
           | Some [] \<Rightarrow> None
           | Some (x # xs) \<Rightarrow>
               (let c1 = c\<lparr>hcnetCoreRunner := Some (r\<lparr>metaPipe := Some xs\<rparr>)\<rparr>
                in case x of
                     Frame xlcm \<Rightarrow> Some (Inr xlcm, c1)
                   | EOF \<Rightarrow> Some (Inl (Wrap ''EOF'' ''got EOF from subprocess''), c1)
                   | Failure e0 \<Rightarrow>
                       Some (Inl (Wrap e0 ''unmarshalling framed LedgerCloseMeta''), c1))))"

text \<open>
  One turn of the loop of \<open>sendLedgerMeta\<close>: read the pipe, push the result, and return
  (\<open>reading := None\<close>) after an error or after the ledger \<open>untilSequence\<close>. A failed read
  first polls the exit channel of the process. The state is unchanged when no goroutine
  runs, when the channel is full (the send blocks) or when the read blocks.
\<close>

definition sendLedgerMeta :: "CaptiveHcnetCore \<Rightarrow> CaptiveHcnetCore" where
  "sendLedgerMeta c =
     (case reading c of
        None \<Rightarrow> c
      | Some untilSequence \<Rightarrow>
          if readAheadBufferSize \<le> length (metaC c) then c
          else
          (case readLedgerMetaFromPipe c of
             None \<Rightarrow> c
           | Some (Inl err, c1) \<Rightarrow>
               (case (case hcnetCoreRunner c1 of None \<Rightarrow> None | Some r \<Rightarrow> processExitChan r) of
                  Some exitErr \<Rightarrow>
                    c1\<lparr>processExit := True, processErr := exitErr,
                       metaC := metaC c1 @
                         [Inl (case exitErr of
                                 Some e \<Rightarrow> Wrap e ''hcnet-core process exited with an error''
                               | None \<Rightarrow> ''hcnet-core process exited without an error unexpectedly'')],
                       reading := None\<rparr>
                | None \<Rightarrow> c1\<lparr>metaC := metaC c1 @ [Inl err], reading := None\<rparr>)
           | Some (Inr meta, c1) \<Rightarrow>
               (let c2 = c1\<lparr>metaC := metaC c1 @ [Inr meta]\<rparr>
                in if untilSequence \<noteq> 0 \<and> untilSequence \<le> LedgerSequence meta
                   then c2\<lparr>reading := None\<rparr> else c2)))"

text \<open>
  The receive \<open><-c.metaC\<close> of the consumer. With an empty channel it waits for the
  goroutine to push its next item; \<open>None\<close> when no item will ever arrive, so that the
  receive never returns.
\<close>

definition recvMetaC :: "CaptiveHcnetCore \<Rightarrow> (metaResult \<times> CaptiveHcnetCore) option" where
  "recvMetaC c =
     (case metaC c of
        x # xs \<Rightarrow> Some (x, c\<lparr>metaC := xs\<rparr>)
      | [] \<Rightarrow>
          (let c1 = sendLedgerMeta c
           in case metaC c1 of
                x # xs \<Rightarrow> Some (x, c1\<lparr>metaC := xs\<rparr>)
              | [] \<Rightarrow> None))"

text \<open>The number of items the consumer can still receive in the current session.\<close>

definition avail :: "CaptiveHcnetCore \<Rightarrow> nat" where
  "avail c = length (metaC c) +
     (case reading c of
        None \<Rightarrow> 0
      | Some u \<Rightarrow>
          (case hcnetCoreRunner c of
             None \<Rightarrow> 0
           | Some r \<Rightarrow> (case metaPipe r of None \<Rightarrow> 1 | Some p \<Rightarrow> length p)))"

lemma sendLedgerMeta_avail:
  "avail (sendLedgerMeta c) \<le> avail c"
  by (auto simp: sendLedgerMeta_def readLedgerMetaFromPipe_def avail_def Let_def
      split: option.splits list.splits pipeRead.splits sum.splits)

lemma recvMetaC_avail:
  assumes "recvMetaC c = Some (x, c1)"
  shows "avail c1 < avail c"
proof (cases "metaC c")
  case (Cons y ys)
  with assms show ?thesis by (auto simp: recvMetaC_def avail_def split: option.splits)
next
  case Nil
  with assms obtain zs where z: "metaC (sendLedgerMeta c) = x # zs"
      and c1: "c1 = (sendLedgerMeta c)\<lparr>metaC := zs\<rparr>"
    by (auto simp: recvMetaC_def Let_def split: list.splits)
  have "avail c1 < avail (sendLedgerMeta c)"
    using z c1 by (simp add: avail_def split: option.splits)
  with sendLedgerMeta_avail [of c] show ?thesis by simp
qed

subsection \<open>GetLedger\<close>

type_synonym GetLedgerResult = "bool \<times> LedgerCloseMeta \<times> error option"

function getLedgerLoop ::
    "u32 \<Rightarrow> CaptiveHcnetCore \<Rightarrow> (GetLedgerResult \<times> CaptiveHcnetCore) option" where
  "getLedgerLoop sequence c =
     (if \<not> blocking c \<and> length (metaC c) = 0 then Some ((False, emptyMeta, None), c)
      else
        case recvMetaC c of
          None \<Rightarrow> None
        | Some (metaResult, c1) \<Rightarrow>
            (case metaResult of
               Inl err \<Rightarrow> Some ((False, emptyMeta, Some err), snd (Close c1))
             | Inr m \<Rightarrow>
                 (let seq = LedgerSequence m in
                  if seq \<noteq> nextLedger c1 then
                    Some ((False, emptyMeta,
                           Some (''unexpected ledger (expected='' @ fmt_d (nextLedger c1) @
                                 '' actual='' @ fmt_d seq @ '')'')),
                          snd (Close c1))
                  else
                    let c2 = c1\<lparr>nextLedger := nextLedger c1 + 1\<rparr> in
                    if seq = sequence then
                      (let c3 = c2\<lparr>cachedMeta := Some m\<rparr> in
                       if lastLedger c3 = Some seq then
                         (case Close c3 of
                            (Some err, c4) \<Rightarrow>
                              Some ((False, emptyMeta, Some (Wrap err ''error closing session'')), c4)
                          | (None, c4) \<Rightarrow> Some ((True, m, None), c4))
                       else Some ((True, m, None), c3))
                    else getLedgerLoop sequence c2)))"
  by pat_completeness auto
termination
  by (relation "measure (\<lambda>(sequence, c). avail c)")
     (auto dest!: recvMetaC_avail simp: avail_def split: option.splits)


declare getLedgerLoop.simps [simp del]

definition GetLedger ::
    "CaptiveHcnetCore \<Rightarrow> u32 \<Rightarrow> (GetLedgerResult \<times> CaptiveHcnetCore) option" where
  "GetLedger c sequence =
     (case (case cachedMeta c of
              Some m \<Rightarrow> if sequence = LedgerSequence m then Some m else None
            | None \<Rightarrow> None) of
        Some m \<Rightarrow> Some ((True, m, None), c)
      | None \<Rightarrow>
          if isClosed c then
            Some ((False, emptyMeta, Some ''session is closed, call PrepareRange first''), c)
          else if sequence < nextLedger c then
            Some ((False, emptyMeta,
                   Some (''requested ledger '' @ fmt_d sequence @
                         '' is behind the captive core stream (expected='' @
                         fmt_d (nextLedger c) @ '')'')), c)
          else getLedgerLoop sequence c)"

text \<open>
  Whether \<open>GetLedger\<close> answers from the cache: \<open>c.cachedMeta != nil\<close> and the requested
  sequence is the cached one.
\<close>

definition cacheHit :: "CaptiveHcnetCore \<Rightarrow> u32 \<Rightarrow> bool" where
  "cacheHit c sequence =
     (case cachedMeta c of Some m \<Rightarrow> sequence = LedgerSequence m | None \<Rightarrow> False)"

subsection \<open>GetLatestLedgerSequence and IsPrepared\<close>

definition GetLatestLedgerSequence :: "CaptiveHcnetCore \<Rightarrow> u32 \<times> error option" where
  "GetLatestLedgerSequence c =
     (if isClosed c then
        (0, Some ''hcnet-core must be opened to return latest available sequence'')
      else
        case lastLedger c of
          None \<Rightarrow> (nextLedger c - 1 + of_nat (length (metaC c)), None)
        | Some l \<Rightarrow> (l, None))"

text \<open>
  The ledgers that sit in the channel: the metas of its items, an item that carries an
  error (\<open>metaResult{nil, err}\<close>) left out.
\<close>

definition bufferedLedgers :: "CaptiveHcnetCore \<Rightarrow> LedgerCloseMeta list" where
  "bufferedLedgers c = [m. Inr m \<leftarrow> metaC c]"

text \<open>
  The latest sequence of an unbounded session in the words of the specification:
  \<open>next_ledger - 1\<close> plus the number of ledgers in the read-ahead buffer. This definition
  follows the specification and is compared with \<open>GetLatestLedgerSequence\<close> below.
\<close>

definition specLatestLedgerSequence :: "CaptiveHcnetCore \<Rightarrow> u32" where
  "specLatestLedgerSequence c = nextLedger c - 1 + of_nat (length (bufferedLedgers c))"

definition IsPrepared :: "CaptiveHcnetCore \<Rightarrow> Range \<Rightarrow> bool \<times> error option" where
  "IsPrepared c ledgerRange =
     (if nextLedger c = 0 then (False, None)
      else
        case lastLedger c of
          None \<Rightarrow> (nextLedger c \<le> range_from ledgerRange, None)
        | Some l \<Rightarrow>
            if bounded ledgerRange then
              (nextLedger c \<le> range_from ledgerRange \<and> nextLedger c \<le> l, None)
            else (False, None))"

subsection \<open>Opening a session\<close>

definition getLatestCheckpointSequence :: "CaptiveConfig \<Rightarrow> error + u32" where
  "getLatestCheckpointSequence cfg =
     (case GetRootHAS (archive cfg) of
        Inl err \<Rightarrow> Inl (Wrap err ''error getting root HAS'')
      | Inr currentLedger \<Rightarrow> Inr currentLedger)"

text \<open>
  The first half of both \<open>open...Subprocess\<close> functions after the checks: make a runner
  with the factory when the backend has none.
\<close>

definition ensureRunner ::
    "CaptiveConfig \<Rightarrow> string \<Rightarrow> CaptiveHcnetCore \<Rightarrow> error + (Runner \<times> CaptiveHcnetCore)" where
  "ensureRunner cfg path c =
     (case hcnetCoreRunner c of
        Some r \<Rightarrow> Inr (r, c)
      | None \<Rightarrow>
          (case hcnetCoreRunnerFactory cfg path of
             Inl err \<Rightarrow> Inl (Wrap err ''error creating hcnet-core runner'')
           | Inr r \<Rightarrow> Inr (r, c\<lparr>hcnetCoreRunner := Some r\<rparr>)))"

definition openOfflineReplaySubprocess ::
    "CaptiveConfig \<Rightarrow> CaptiveHcnetCore \<Rightarrow> u32 \<Rightarrow> u32 \<Rightarrow> error option \<times> CaptiveHcnetCore" where
  "openOfflineReplaySubprocess cfg c from0 to0 =
     (case Close c of
        (Some err, c1) \<Rightarrow> (Some (Wrap err ''error closing existing session''), c1)
      | (None, c1) \<Rightarrow>
          (case getLatestCheckpointSequence cfg of
             Inl err \<Rightarrow> (Some (Wrap err ''error getting latest checkpoint sequence''), c1)
           | Inr latestCheckpointSequence \<Rightarrow>
               if latestCheckpointSequence < from0 then
                 (Some (''sequence: '' @ fmt_d from0 @
                        '' is greater than max available in history archives: '' @
                        fmt_d latestCheckpointSequence), c1)
               else
                 let to1 = (if latestCheckpointSequence < to0 then latestCheckpointSequence else to0)
                 in (case ensureRunner cfg [] c1 of
                      Inl err \<Rightarrow> (Some err, c1)
                    | Inr (r, c2) \<Rightarrow>
                        (let c3 = c2\<lparr>calls := calls c2 @ [CallCatchup from0 to1]\<rparr>
                         in case catchupResult r of
                              Some err \<Rightarrow> (Some (Wrap err ''error running hcnet-core''), c3)
                            | None \<Rightarrow>
                                (None,
                                 c3\<lparr>nextLedger := roundDownToFirstReplayAfterCheckpointStart from0,
                                    lastLedger := Some to1,
                                    blocking := True,
                                    processExit := False,
                                    processErr := None,
                                    metaC := [],
                                    shutdown := True,
                                    reading := Some to1\<rparr>)))))"

definition openOnlineReplaySubprocess ::
    "CaptiveConfig \<Rightarrow> CaptiveHcnetCore \<Rightarrow> u32 \<Rightarrow> (error option \<times> CaptiveHcnetCore) option" where
  "openOnlineReplaySubprocess cfg c from0 =
     (if lastLedger c = None \<and> nextLedger c \<noteq> 0 \<and> nextLedger c \<le> from0 then Some (None, c)
      else
        (case Close c of
          (Some err, c1) \<Rightarrow> Some (Some (Wrap err ''error closing existing session''), c1)
        | (None, c1) \<Rightarrow>
            (case getLatestCheckpointSequence cfg of
               Inl err \<Rightarrow> Some (Some (Wrap err ''error getting latest checkpoint sequence''), c1)
             | Inr latestCheckpointSequence \<Rightarrow>
                 if latestCheckpointSequence + 2 * 64 < from0 then
                   Some (Some (''trying to start online mode too far (latest checkpoint='' @
                               fmt_d latestCheckpointSequence @
                               ''), only two checkpoints in the future allowed''), c1)
                 else if hcnetCoreRunner c1 = None \<and> configPath cfg = [] then
                   Some (Some ''hcnet-core config file path cannot be empty in an online mode'', c1)
                 else
                   (case ensureRunner cfg (configPath cfg) c1 of
                     Inl err \<Rightarrow> Some (Some err, c1)
                   | Inr (r, c2) \<Rightarrow>
                       (case runFromParams (archive cfg) from0 of
                          (runFrom, ledgerHash, nextLedger0, Some err) \<Rightarrow>
                            Some (Some (Wrap err
                               ''error calculating ledger and hash for stelar-core run''), c2)
                        | (runFrom, ledgerHash, nextLedger0, None) \<Rightarrow>
                            (let c3 = c2\<lparr>calls := calls c2 @ [CallRunFrom runFrom ledgerHash]\<rparr>
                             in case runFromResult r of
                                  Some err \<Rightarrow> Some (Some (Wrap err ''error running hcnet-core''), c3)
                                | None \<Rightarrow>
                                    (let c4 = c3\<lparr>nextLedger := nextLedger0,
                                                   lastLedger := None,
                                                   blocking := False,
                                                   processExit := False,
                                                   processErr := None,
                                                   metaC := [],
                                                   shutdown := True,
                                                   reading := Some 0\<rparr>
                                     in if nextLedger c4 < from0 then
                                          (case GetLedger (c4\<lparr>blocking := True\<rparr>) from0 of
                                             None \<Rightarrow> None
                                           | Some ((found, meta, err), c5) \<Rightarrow>
                                               (let c6 = c5\<lparr>blocking := False\<rparr>
                                                in case err of
                                                     Some e \<Rightarrow>
                                                       Some (Some (Wrap e (''Error fast-forwarding to '' @
                                                                fmt_d from0)), c6)
                                                   | None \<Rightarrow> Some (None, c6)))
                                        else Some (None, c4))))))))"

subsection \<open>PrepareRange\<close>

text \<open>
  The loop that ends \<open>PrepareRange\<close> polls \<open>len(c.metaC)\<close> until the channel holds an
  item, and then reports a process that has exited. With an empty channel the goroutine
  has to push its next item for the loop to end; \<open>None\<close> when it never will. The
  \<open>select\<close> on \<open>c.shutdown\<close> never fires: only \<open>Close\<close> closes that channel, and sets the
  field to \<open>nil\<close>. After a successful \<open>open...Subprocess\<close> the backend has a runner, so
  that \<open>getMetaPipe()\<close> is called on it.
\<close>

definition waitForFirstLedger :: "CaptiveHcnetCore \<Rightarrow> (error option \<times> CaptiveHcnetCore) option" where
  "waitForFirstLedger c =
     (let c1 = (if 0 < length (metaC c) then c else sendLedgerMeta c)
      in if 0 < length (metaC c1) then
           Some (if processExit c1 then
                   (case processErr c1 of
                      Some e \<Rightarrow> Some (Wrap e ''hcnet-core process exited with an error'')
                    | None \<Rightarrow> Some ''hcnet-core process exited without an error unexpectedly'')
                 else None, c1)
         else None)"

definition PrepareRange ::
    "CaptiveConfig \<Rightarrow> CaptiveHcnetCore \<Rightarrow> Range \<Rightarrow> (error option \<times> CaptiveHcnetCore) option" where
  "PrepareRange cfg c ledgerRange =
     (case IsPrepared c ledgerRange of
        (prepared, Some err) \<Rightarrow> Some (Some (Wrap err ''error in IsPrepared''), c)
      | (True, None) \<Rightarrow> Some (None, c)
      | (False, None) \<Rightarrow>
          (case (if bounded ledgerRange
                 then Some (openOfflineReplaySubprocess cfg c (range_from ledgerRange)
                              (range_to ledgerRange))
                 else openOnlineReplaySubprocess cfg c (range_from ledgerRange)) of
             None \<Rightarrow> None
           | Some (Some err, c1) \<Rightarrow> Some (Some (Wrap err ''opening subprocess''), c1)
           | Some (None, c1) \<Rightarrow>
               (case (case hcnetCoreRunner c1 of None \<Rightarrow> None | Some r \<Rightarrow> metaPipe r) of
                  None \<Rightarrow> Some (Some ''missing metadata pipe'', c1)
                | Some p \<Rightarrow> waitForFirstLedger c1)))"

section \<open>The processor runner\<close>

subsection \<open>Ledger entries and changes\<close>

text \<open>
  Of \<open>xdr.LedgerEntry\<close> the model keeps what the offers processor reads. Amounts and
  identifiers are \<open>int64\<close> and \<open>int32\<close> values that the code only copies; they are
  integers here. \<open>OtherEntry\<close> stands for the entry types the offers processor does not
  handle.
\<close>

datatype LedgerEntryType =
  LedgerEntryTypeAccount | LedgerEntryTypeTrustline | LedgerEntryTypeOffer |
  LedgerEntryTypeData | LedgerEntryTypeClaimableBalance

record OfferEntry =
  SellerId :: string
  OfferId :: int
  Selling :: string
  Buying :: string
  Amount :: int
  PriceN :: int
  PriceD :: int
  Flags :: u32

datatype LedgerEntryData = AccountEntry string | OfferEntryData OfferEntry | OtherEntry nat

record LedgerEntry =
  LastModifiedLedgerSeq :: u32
  Data :: LedgerEntryData
  SponsoringID :: "string option"

text \<open>\<open>io.Change\<close>: the type of the entry and its state before and after.\<close>

record Change =
  ChangeType :: LedgerEntryType
  Pre :: "LedgerEntry option"
  Post :: "LedgerEntry option"

text \<open>
  A \<open>ChangeReader\<close> is the list of results its \<open>Read\<close> will return, a change or an
  error; the end of the list is \<open>io.EOF\<close>.
\<close>

type_synonym ChangeReader = "(error + Change) list"

text \<open>
  Modelled from the spec: \<open>io.GenesisLedgerStateReader\<close> is defined in package
  \<open>ingest/io\<close>, which is not among the source files. It is the synthetic genesis
  change-stream: a single created entry, the root account of the network.
\<close>

definition GenesisLedgerStateReader :: "string \<Rightarrow> ChangeReader" where
  "GenesisLedgerStateReader networkPassphrase =
     [Inr \<lparr>ChangeType = LedgerEntryTypeAccount, Pre = None,
            Post = Some \<lparr>LastModifiedLedgerSeq = 1,
                          Data = AccountEntry (''root account of '' @ networkPassphrase),
                          SponsoringID = None\<rparr>\<rparr>]"

subsection \<open>Processors and the collaborators of the runner\<close>

text \<open>
  \<open>auroraChangeProcessor\<close>: \<open>ProcessChange\<close> and \<open>Commit\<close>, acting on the store \<open>'q\<close>
  they write to (together with whatever the processors buffer).
\<close>

record 'q auroraChangeProcessor =
  ProcessChange :: "'q \<Rightarrow> Change \<Rightarrow> error option \<times> 'q"
  Commit :: "'q \<Rightarrow> error option \<times> 'q"

datatype ingestionSource = historyArchiveSource | ledgerSource

text \<open>
  The fields of \<open>ProcessorRunner\<close>. \<open>GetLedger\<close> is the method of the
  \<open>ledgerbackend.LedgerBackend\<close> interface, acting on a backend state \<open>'b\<close> (\<open>None\<close> when
  the call does not return, as for the captive backend above); \<open>BucketListHash\<close> and
  \<open>GetState\<close> are the methods of the history archive adapter. The processors that
  \<open>buildChangeProcessor\<close> groups, other than the offers processor, are not among the
  source files: the group it builds for a source and a sequence is a parameter.
\<close>

record ('b, 'q) ProcessorRunner =
  NetworkPassphrase :: string
  ledgerBackend_GetLedger :: "'b \<Rightarrow> u32 \<Rightarrow> (GetLedgerResult \<times> 'b) option"
  historyAdapter_BucketListHash :: "u32 \<Rightarrow> error + byte list"
  historyAdapter_GetState :: "u32 \<Rightarrow> error + ChangeReader"
  buildChangeProcessor :: "ingestionSource \<Rightarrow> u32 \<Rightarrow> 'q auroraChangeProcessor"

text \<open>
  What a run acts on: the backend, the store, and the log of the calls made on the
  collaborators, in order, as mocks record them.
\<close>

datatype runnerCall2 =
  CallGetLedger u32 | CallBucketListHash u32 | CallGetState u32 |
  CallProcessChange Change | CallCommit

record ('b, 'q) runState =
  backend :: 'b
  store :: 'q
  trace :: "runnerCall2 list"

text \<open>The calls made on the processor, as opposed to the backend and the archive.\<close>

definition sinkCall :: "runnerCall2 \<Rightarrow> bool" where
  "sinkCall x = (case x of CallProcessChange change \<Rightarrow> True | CallCommit \<Rightarrow> True | _ \<Rightarrow> False)"

text \<open>
  Modelled from the spec: the constant \<open>MaxSupportedProtocolVersion\<close> is declared in a
  file that is not among the source files; the build that the spec and the tests of the
  runner describe supports protocol 15.
\<close>

definition MaxSupportedProtocolVersion :: u32 where
  "MaxSupportedProtocolVersion = 15"

subsection \<open>checkIfProtocolVersionSupported and validateBucketList\<close>

definition checkIfProtocolVersionSupported ::
    "('b, 'q) ProcessorRunner \<Rightarrow> ('b, 'q) runState \<Rightarrow> u32 \<Rightarrow>
       (error option \<times> ('b, 'q) runState) option" where
  "checkIfProtocolVersionSupported s st ledgerSequence =
     (case ledgerBackend_GetLedger s (backend st) ledgerSequence of
        None \<Rightarrow> None
      | Some ((exists, ledgerCloseMeta, err), b) \<Rightarrow>
          (let st1 = st\<lparr>backend := b, trace := trace st @ [CallGetLedger ledgerSequence]\<rparr>
           in case err of
                Some e \<Rightarrow> Some (Some (Wrap e ''Error getting ledger''), st1)
              | None \<Rightarrow>
                  if \<not> exists then
                    Some (Some ''cannot check if protocol version supported: ledger does not exist'',
                          st1)
                  else
                    let ledgerVersion = LedgerVersion (Header ledgerCloseMeta)
                    in if MaxSupportedProtocolVersion < ledgerVersion then
                         Some (Some (''This Aurora version does not support protocol version '' @
                                 fmt_d ledgerVersion @
                                 ''. The latest supported protocol version is '' @
                                 fmt_d MaxSupportedProtocolVersion @
                                 ''. Please upgrade to the latest Aurora version.''), st1)
                       else Some (None, st1)))"

text \<open>The verb \<open>%#x\<close> on a hash: \<open>0x\<close> and the hexadecimal digits of its bytes.\<close>

definition fmt_x :: "byte list \<Rightarrow> string" where
  "fmt_x h = ''0x'' @ EncodeToString h"

definition validateBucketList ::
    "('b, 'q) ProcessorRunner \<Rightarrow> ('b, 'q) runState \<Rightarrow> u32 \<Rightarrow>
       (error option \<times> ('b, 'q) runState) option" where
  "validateBucketList s st ledgerSequence =
     (let st0 = st\<lparr>trace := trace st @ [CallBucketListHash ledgerSequence]\<rparr>
      in case historyAdapter_BucketListHash s ledgerSequence of
           Inl err \<Rightarrow> Some (Some (Wrap err ''Error getting bucket list hash''), st0)
         | Inr historyBucketListHash \<Rightarrow>
             (case ledgerBackend_GetLedger s (backend st0) ledgerSequence of
                None \<Rightarrow> None
              | Some ((exists, ledgerCloseMeta, err), b) \<Rightarrow>
                  (let st1 = st0\<lparr>backend := b,
                                  trace := trace st0 @ [CallGetLedger ledgerSequence]\<rparr>
                   in case err of
                        Some e \<Rightarrow> Some (Some (Wrap e ''Error getting ledger''), st1)
                      | None \<Rightarrow>
                          if \<not> exists then
                            Some (Some (''cannot validate bucket hash list. Checkpoint ledger ('' @
                                    fmt_d ledgerSequence @
                                    '') must exist in Hcnet-Core database.''), st1)
                          else
                            let ledgerBucketHashList = BucketListHash (Header ledgerCloseMeta)
                            in if historyBucketListHash \<noteq> ledgerBucketHashList then
                                 Some (Some (''Bucket list hash of history archive and ledger header does not match: '' @
                                         fmt_x historyBucketListHash @ '' '' @
                                         fmt_x ledgerBucketHashList), st1)
                               else Some (None, st1))))"

subsection \<open>RunHistoryArchiveIngestion\<close>

text \<open>
  Modelled from the spec: \<open>io.StreamChanges\<close> is defined in package \<open>ingest/io\<close>, which
  is not among the source files. It streams all changes of the reader into the
  processor, in order, and stops at the first error of the reader or of the processor.
\<close>

fun StreamChanges ::
    "'q auroraChangeProcessor \<Rightarrow> ('b, 'q) runState \<Rightarrow> ChangeReader \<Rightarrow>
       error option \<times> ('b, 'q) runState" where
  "StreamChanges p st [] = (None, st)"
| "StreamChanges p st (Inl err # rest) = (Some err, st)"
| "StreamChanges p st (Inr change # rest) =
     (case ProcessChange p (store st) change of
        (Some err, q) \<Rightarrow>
          (Some err, st\<lparr>store := q, trace := trace st @ [CallProcessChange change]\<rparr>)
      | (None, q) \<Rightarrow>
          StreamChanges p (st\<lparr>store := q, trace := trace st @ [CallProcessChange change]\<rparr>) rest)"

text \<open>
  The end of \<open>RunHistoryArchiveIngestion\<close>, from \<open>io.StreamChanges\<close> on. The statistics it
  returns next to the error are not modelled, nor is the logging wrapper of the reader.
\<close>

definition streamAndCommit ::
    "'q auroraChangeProcessor \<Rightarrow> ('b, 'q) runState \<Rightarrow> ChangeReader \<Rightarrow>
       error option \<times> ('b, 'q) runState" where
  "streamAndCommit changeProcessor st changeReader =
     (case StreamChanges changeProcessor st changeReader of
        (Some err, st1) \<Rightarrow> (Some (Wrap err ''Error streaming changes from HAS''), st1)
      | (None, st1) \<Rightarrow>
          (case Commit changeProcessor (store st1) of
             (Some err, q) \<Rightarrow>
               (Some (Wrap err ''Error commiting changes from processor''),
                st1\<lparr>store := q, trace := trace st1 @ [CallCommit]\<rparr>)
           | (None, q) \<Rightarrow> (None, st1\<lparr>store := q, trace := trace st1 @ [CallCommit]\<rparr>)))"

definition RunHistoryArchiveIngestion ::
    "('b, 'q) ProcessorRunner \<Rightarrow> ('b, 'q) runState \<Rightarrow> u32 \<Rightarrow>
       (error option \<times> ('b, 'q) runState) option" where
  "RunHistoryArchiveIngestion s st checkpointLedger =
     (let changeProcessor = buildChangeProcessor s historyArchiveSource checkpointLedger
      in if checkpointLedger = 1 then
           Some (streamAndCommit changeProcessor st (GenesisLedgerStateReader (NetworkPassphrase s)))
         else
           case checkIfProtocolVersionSupported s st checkpointLedger of
             None \<Rightarrow> None
           | Some (Some err, st1) \<Rightarrow>
               Some (Some (Wrap err ''Error while checking for supported protocol version''), st1)
           | Some (None, st1) \<Rightarrow>
               (case validateBucketList s st1 checkpointLedger of
                  None \<Rightarrow> None
                | Some (Some err, st2) \<Rightarrow>
                    Some (Some (Wrap err ''Error validating bucket list from HAS''), st2)
                | Some (None, st2) \<Rightarrow>
                    (let st3 = st2\<lparr>trace := trace st2 @ [CallGetState checkpointLedger]\<rparr>
                     in case historyAdapter_GetState s checkpointLedger of
                          Inl err \<Rightarrow> Some (Some (Wrap err ''Error creating HAS reader''), st3)
                        | Inr changeReader \<Rightarrow>
                            Some (streamAndCommit changeProcessor st3 changeReader))))"


section \<open>The offers processor\<close>

text \<open>The verb \<open>%d\<close> on a signed integer.\<close>

definition fmt_int :: "int \<Rightarrow> string" where
  "fmt_int i = (if i < 0 then ''-'' @ decimal (nat (- i)) else decimal (nat i))"

definition offerCompactionWindow :: u32 where
  "offerCompactionWindow = 100"

text \<open>
  \<open>history.Offer\<close>, the row of the offers table that \<open>ledgerEntryToRow\<close> builds. Its
  \<open>Price\<close>, a floating point quotient, is left out.
\<close>

record Offer =
  SellerID :: string
  OfferID :: int
  SellingAsset :: string
  BuyingAsset :: string
  RowAmount :: int
  Pricen :: int
  Priced :: int
  RowFlags :: u32
  LastModifiedLedger :: u32
  Sponsor :: "string option"

text \<open>
  \<open>history.QOffers\<close> and the batch insert builder it makes, acting on a store \<open>'q\<close>.
  The queries return the number of rows affected and an error.
\<close>

record 'q QOffers =
  BatchAdd :: "'q \<Rightarrow> Offer \<Rightarrow> error option \<times> 'q"
  BatchExec :: "'q \<Rightarrow> error option \<times> 'q"
  RemoveOffer :: "'q \<Rightarrow> int \<Rightarrow> u32 \<Rightarrow> (int \<times> error option) \<times> 'q"
  UpdateOffer :: "'q \<Rightarrow> Offer \<Rightarrow> (int \<times> error option) \<times> 'q"
  CompactOffers :: "'q \<Rightarrow> u32 \<Rightarrow> (int \<times> error option) \<times> 'q"

text \<open>
  The processor: its sequence and the changes that \<open>p.cache.GetChanges()\<close> returns. The
  batch \<open>p.batch\<close> is part of the store.
\<close>

record OffersProcessor =
  sequence' :: u32
  cache :: "Change list"

text \<open>\<open>entry.Data.MustOffer()\<close> panics on an entry that is not an offer.\<close>

definition MustOffer :: "LedgerEntryData \<Rightarrow> error + OfferEntry" where
  "MustOffer d = (case d of OfferEntryData offer \<Rightarrow> Inr offer
                  | _ \<Rightarrow> Inl ''panic: arm Offer is not set'')"

definition ledgerEntryToRow :: "LedgerEntry \<Rightarrow> error + Offer" where
  "ledgerEntryToRow entry =
     (case MustOffer (Data entry) of
        Inl e \<Rightarrow> Inl e
      | Inr offer \<Rightarrow>
          Inr \<lparr>SellerID = SellerId offer,
               OfferID = OfferId offer,
               SellingAsset = Selling offer,
               BuyingAsset = Buying offer,
               RowAmount = Amount offer,
               Pricen = PriceN offer,
               Priced = PriceD offer,
               RowFlags = Flags offer,
               LastModifiedLedger = LastModifiedLedgerSeq entry,
               Sponsor = SponsoringID entry\<rparr>)"

text \<open>The two checks that end each turn of the loop of \<open>flushCache\<close>.\<close>

definition checkRowsAffected ::
    "int \<Rightarrow> error option \<Rightarrow> string \<Rightarrow> int \<Rightarrow> 'q \<Rightarrow> error option \<times> 'q" where
  "checkRowsAffected rowsAffected err action offerID q =
     (case err of
        Some e \<Rightarrow> (Some e, q)
      | None \<Rightarrow>
          if rowsAffected \<noteq> 1 then
            (Some (fmt_int rowsAffected @ '' rows affected when '' @ action @ '' offer '' @
                   fmt_int offerID), q)
          else (None, q))"

text \<open>One turn of the loop of \<open>flushCache\<close>: the \<open>switch\<close> on the change.\<close>

definition flushChange :: "'q QOffers \<Rightarrow> u32 \<Rightarrow> 'q \<Rightarrow> Change \<Rightarrow> error option \<times> 'q" where
  "flushChange Q seq q change =
     (case (Pre change, Post change) of
        (None, Some post) \<Rightarrow>
          (case ledgerEntryToRow post of
             Inl e \<Rightarrow> (Some e, q)
           | Inr row \<Rightarrow>
               (case BatchAdd Q q row of
                  (err, q1) \<Rightarrow> checkRowsAffected 1 err ''inserting'' 0 q1))
      | (Some pre, None) \<Rightarrow>
          (case MustOffer (Data pre) of
             Inl e \<Rightarrow> (Some e, q)
           | Inr offer \<Rightarrow>
               (case RemoveOffer Q q (OfferId offer) seq of
                  ((rowsAffected, err), q1) \<Rightarrow>
                    checkRowsAffected rowsAffected err ''removing'' (OfferId offer) q1))
      | (pre, Some post) \<Rightarrow>
          (case MustOffer (Data post) of
             Inl e \<Rightarrow> (Some e, q)
           | Inr offer \<Rightarrow>
               (case ledgerEntryToRow post of
                  Inl e \<Rightarrow> (Some e, q)
                | Inr row \<Rightarrow>
                    (case UpdateOffer Q q row of
                       ((rowsAffected, err), q1) \<Rightarrow>
                         checkRowsAffected rowsAffected err ''updating'' (OfferId offer) q1)))
      | (None, None) \<Rightarrow> (Some ''panic: nil pointer dereference'', q))"

fun flushChanges :: "'q QOffers \<Rightarrow> u32 \<Rightarrow> 'q \<Rightarrow> Change list \<Rightarrow> error option \<times> 'q" where
  "flushChanges Q seq q [] = (None, q)"
| "flushChanges Q seq q (change # rest) =
     (case flushChange Q seq q change of
        (Some err, q1) \<Rightarrow> (Some err, q1)
      | (None, q1) \<Rightarrow> flushChanges Q seq q1 rest)"

definition flushCache :: "'q QOffers \<Rightarrow> OffersProcessor \<Rightarrow> 'q \<Rightarrow> error option \<times> 'q" where
  "flushCache Q p q =
     (case flushChanges Q (sequence' p) q (cache p) of
        (Some err, q1) \<Rightarrow> (Some err, q1)
      | (None, q1) \<Rightarrow>
          (case BatchExec Q q1 of
             (Some err, q2) \<Rightarrow> (Some (Wrap err ''error executing batch''), q2)
           | (None, q2) \<Rightarrow> (None, q2)))"

definition OffersProcessor_Commit ::
    "'q QOffers \<Rightarrow> OffersProcessor \<Rightarrow> 'q \<Rightarrow> error option \<times> 'q" where
  "OffersProcessor_Commit Q p q =
     (case flushCache Q p q of
        (Some err, q1) \<Rightarrow> (Some (Wrap err ''error flushing cache''), q1)
      | (None, q1) \<Rightarrow>
          if offerCompactionWindow < sequence' p then
            (case CompactOffers Q q1 (sequence' p - offerCompactionWindow) of
               ((offerRowsRemoved, Some err), q2) \<Rightarrow> (Some (Wrap err ''could not compact offers''), q2)
             | ((offerRowsRemoved, None), q2) \<Rightarrow> (None, q2))
          else (None, q1))"

subsection \<open>The offers table\<close>

text \<open>
  Modelled from the spec: the queries of \<open>history.QOffers\<close> are implemented in files
  that are not among the source files. The store is the offers table, each row with the sequence at which it was
  soft-deleted if it was, the rows added to the batch and not yet inserted, the cut-off
  sequences of the compactions attempted so far, and an error that makes every query
  fail when set. Removing an offer stamps \<open>deleted_at\<close> on its live row; compaction
  physically deletes the rows whose \<open>deleted_at\<close> is below the cut-off.
\<close>

record OfferTableRow =
  offer :: Offer
  deleted_at :: "u32 option"

record OffersStore =
  offers :: "OfferTableRow list"
  batch :: "Offer list"
  compactions :: "u32 list"
  dbError :: "error option"

definition liveOffer :: "int \<Rightarrow> OfferTableRow \<Rightarrow> bool" where
  "liveOffer offerID r = (OfferID (offer r) = offerID \<and> deleted_at r = None)"

definition compacted :: "u32 \<Rightarrow> OfferTableRow \<Rightarrow> bool" where
  "compacted cutOffSequence r =
     (case deleted_at r of Some d \<Rightarrow> d < cutOffSequence | None \<Rightarrow> False)"

definition tableQOffers :: "OffersStore QOffers" where
  "tableQOffers =
     \<lparr>BatchAdd = (\<lambda>q row. (None, q\<lparr>batch := batch q @ [row]\<rparr>)),
      BatchExec = (\<lambda>q. case dbError q of
          Some e \<Rightarrow> (Some e, q)
        | None \<Rightarrow>
            (None, q\<lparr>offers := offers q @ map (\<lambda>row. \<lparr>offer = row, deleted_at = None\<rparr>) (batch q),
                     batch := []\<rparr>)),
      RemoveOffer = (\<lambda>q offerID seq. case dbError q of
          Some e \<Rightarrow> ((0, Some e), q)
        | None \<Rightarrow>
            ((int (length (filter (liveOffer offerID) (offers q))), None),
             q\<lparr>offers := map (\<lambda>r. if liveOffer offerID r then r\<lparr>deleted_at := Some seq\<rparr> else r)
                             (offers q)\<rparr>)),
      UpdateOffer = (\<lambda>q row. case dbError q of
          Some e \<Rightarrow> ((0, Some e), q)
        | None \<Rightarrow>
            ((int (length (filter (liveOffer (OfferID row)) (offers q))), None),
             q\<lparr>offers := map (\<lambda>r. if liveOffer (OfferID row) r then r\<lparr>offer := row\<rparr> else r)
                             (offers q)\<rparr>)),
      CompactOffers = (\<lambda>q cutOffSequence.
          let q1 = q\<lparr>compactions := compactions q @ [cutOffSequence]\<rparr>
          in case dbError q of
               Some e \<Rightarrow> ((0, Some e), q1)
             | None \<Rightarrow>
                 ((int (length (filter (compacted cutOffSequence) (offers q))), None),
                  q1\<lparr>offers := filter (\<lambda>r. \<not> compacted cutOffSequence r) (offers q)\<rparr>))\<rparr>"


section \<open>Fixtures\<close>

subsection \<open>Fixtures for the captive backend\<close>

definition ledger :: "u32 \<Rightarrow> LedgerCloseMeta" where
  "ledger s = \<lparr>Header = \<lparr>LedgerSeq = s, LedgerVersion = 13, PreviousLedgerHash = [],
     BucketListHash = []\<rparr>, payload = unat s\<rparr>"

definition testArchive :: Archive where
  "testArchive = \<lparr>GetRootHAS = Inr 200,
     GetLedgerHeader = (\<lambda>s. Inr \<lparr>LedgerSeq = s, LedgerVersion = 13,
        PreviousLedgerHash = [1, 1, 1, 1], BucketListHash = []\<rparr>),
     IsCheckpoint = (\<lambda>i. (i + 1) mod 64 = 0),
     PrevCheckpoint = (\<lambda>i. if i < 64 then 63 else (i div 64) * 64 - 1)\<rparr>"

definition testRunner :: "pipeRead list \<Rightarrow> Runner" where
  "testRunner p = \<lparr>catchupResult = None, runFromResult = None, metaPipe = Some p,
     processExitChan = None, closeResult = None\<rparr>"

definition testConfig :: "pipeRead list \<Rightarrow> CaptiveConfig" where
  "testConfig p = \<lparr>archive = testArchive, configPath = ''foo'',
     hcnetCoreRunnerFactory = (\<lambda>path. Inr (testRunner p))\<rparr>"

text \<open>
  Three states of a backend that replays \<open>[3, 3]\<close> from a pipe delivering ledgers 2
  and 3: the session as \<open>PrepareRange\<close> leaves it, the backend after ledger 3 was read
  (closed, ledger 3 cached), and the session a second \<open>PrepareRange\<close> opens from there.
\<close>

definition bounded_2_3 :: CaptiveHcnetCore where
  "bounded_2_3 = \<lparr>shutdown = True, metaC = [Inr (ledger 2)], reading = Some 3,
     hcnetCoreRunner = Some (testRunner [Frame (ledger 3)]),
     cachedMeta = None, blocking = True, nextLedger = 2, lastLedger = Some 3,
     processExit = False, processErr = None, calls = [CallCatchup 3 3]\<rparr>"

definition closed_after_3 :: CaptiveHcnetCore where
  "closed_after_3 = \<lparr>shutdown = False, metaC = [], reading = None,
     hcnetCoreRunner = None,
     cachedMeta = Some (ledger 3), blocking = True, nextLedger = 0, lastLedger = None,
     processExit = False, processErr = None, calls = [CallCatchup 3 3, CallClose]\<rparr>"

text \<open>The first of these sessions after ledger 2 was read: ledger 3 is still in the pipe.\<close>

definition bounded_at_3 :: CaptiveHcnetCore where
  "bounded_at_3 = \<lparr>shutdown = True, metaC = [], reading = Some 3,
     hcnetCoreRunner = Some (testRunner [Frame (ledger 3)]),
     cachedMeta = Some (ledger 2), blocking = True, nextLedger = 3, lastLedger = Some 3,
     processExit = False, processErr = None, calls = [CallCatchup 3 3]\<rparr>"

definition stale_2_3 :: CaptiveHcnetCore where
  "stale_2_3 = \<lparr>shutdown = True, metaC = [Inr (ledger 2)], reading = Some 3,
     hcnetCoreRunner = Some (testRunner [Frame (ledger 3)]),
     cachedMeta = Some (ledger 3), blocking = True, nextLedger = 2, lastLedger = Some 3,
     processExit = False, processErr = None,
     calls = [CallCatchup 3 3, CallClose, CallCatchup 3 3]\<rparr>"

text \<open>
  A bounded session \<open>[65, 66]\<close> whose pipe delivers ledgers 64, 65 and then 68: as
  \<open>PrepareRange\<close> leaves it, when ledger 66 is expected next, and after the gap has closed
  it. Last, an unbounded session prepared from ledger 4, with ledger 5 in the channel.
\<close>

definition gap_64_66 :: CaptiveHcnetCore where
  "gap_64_66 = \<lparr>shutdown = True, metaC = [Inr (ledger 64)], reading = Some 66,
     hcnetCoreRunner = Some (testRunner [Frame (ledger 65), Frame (ledger 68)]),
     cachedMeta = None, blocking = True, nextLedger = 64, lastLedger = Some 66,
     processExit = False, processErr = None, calls = [CallCatchup 65 66]\<rparr>"

definition gap_at_66 :: CaptiveHcnetCore where
  "gap_at_66 = \<lparr>shutdown = True, metaC = [], reading = Some 66,
     hcnetCoreRunner = Some (testRunner [Frame (ledger 68)]),
     cachedMeta = None, blocking = True, nextLedger = 66, lastLedger = Some 66,
     processExit = False, processErr = None, calls = [CallCatchup 65 66]\<rparr>"

definition gap_closed :: CaptiveHcnetCore where
  "gap_closed = \<lparr>shutdown = False, metaC = [], reading = None,
     hcnetCoreRunner = None,
     cachedMeta = None, blocking = True, nextLedger = 0, lastLedger = None,
     processExit = False, processErr = None, calls = [CallCatchup 65 66, CallClose]\<rparr>"

definition unbounded_4 :: CaptiveHcnetCore where
  "unbounded_4 = \<lparr>shutdown = True, metaC = [Inr (ledger 5)], reading = Some 0,
     hcnetCoreRunner = Some (testRunner [Frame (ledger 6), Frame (ledger 7)]),
     cachedMeta = Some (ledger 4), blocking = False, nextLedger = 5, lastLedger = None,
     processExit = False, processErr = None, calls = [CallRunFrom 2 ''01010101'']\<rparr>"

text \<open>
  That session once the goroutine has pushed ledger 6 as well and \<open>GetLedger 5\<close> has
  returned: ledger 5 is cached, ledger 6 waits in the channel and ledger 7 in the pipe.
\<close>

definition unbounded_5 :: CaptiveHcnetCore where
  "unbounded_5 = \<lparr>shutdown = True, metaC = [Inr (ledger 6)], reading = Some 0,
     hcnetCoreRunner = Some (testRunner [Frame (ledger 7)]),
     cachedMeta = Some (ledger 5), blocking = False, nextLedger = 6, lastLedger = None,
     processExit = False, processErr = None, calls = [CallRunFrom 2 ''01010101'']\<rparr>"

text \<open>
  An unbounded session prepared from ledger 4 whose pipe ends after ledger 4: the
  goroutine has pushed the error of its last read, the only item of the channel, and has
  returned. Then the backend after \<open>GetLedger 5\<close> has received that error.
\<close>

definition eof_at_5 :: CaptiveHcnetCore where
  "eof_at_5 = \<lparr>shutdown = True, metaC = [Inl ''got EOF from subprocess: EOF''],
     reading = None, hcnetCoreRunner = Some (testRunner []),
     cachedMeta = Some (ledger 4), blocking = False, nextLedger = 5, lastLedger = None,
     processExit = False, processErr = None, calls = [CallRunFrom 2 ''01010101'']\<rparr>"

definition eof_closed :: CaptiveHcnetCore where
  "eof_closed = \<lparr>shutdown = False, metaC = [], reading = None, hcnetCoreRunner = None,
     cachedMeta = Some (ledger 4), blocking = False, nextLedger = 0, lastLedger = None,
     processExit = False, processErr = None,
     calls = [CallRunFrom 2 ''01010101'', CallClose]\<rparr>"

subsection \<open>Fixtures for the runner\<close>

text \<open>
  A backend that has every ledger, at protocol 13 except ledger 100 at protocol 200, with
  bucket list hash \<open>[0, 1, 2]\<close>; an archive whose bucket list hash is \<open>[0, 1, 2]\<close> at
  checkpoint 63 and \<open>[0, 1, 3]\<close> elsewhere; a processor that records the changes it is
  given.
\<close>

definition testBackend :: "unit \<Rightarrow> u32 \<Rightarrow> (GetLedgerResult \<times> unit) option" where
  "testBackend b seq =
     Some ((True,
            \<lparr>Header = \<lparr>LedgerSeq = seq, LedgerVersion = (if seq = 100 then 200 else 13),
                        PreviousLedgerHash = [], BucketListHash = [0, 1, 2]\<rparr>,
             payload = 0\<rparr>,
            None), b)"

definition recordingProcessor :: "(Change list) auroraChangeProcessor" where
  "recordingProcessor = \<lparr>ProcessChange = (\<lambda>q change. (None, q @ [change])),
                          Commit = (\<lambda>q. (None, q))\<rparr>"

definition testProcessorRunner :: "(unit, Change list) ProcessorRunner" where
  "testProcessorRunner =
     \<lparr>NetworkPassphrase = ''Test Network'',
      ledgerBackend_GetLedger = testBackend,
      historyAdapter_BucketListHash = (\<lambda>seq. Inr (if seq = 63 then [0, 1, 2] else [0, 1, 3])),
      historyAdapter_GetState = (\<lambda>seq. Inr (GenesisLedgerStateReader ''Test Network'')),
      buildChangeProcessor = (\<lambda>source seq. recordingProcessor)\<rparr>"

definition emptyRun :: "(unit, Change list) runState" where
  "emptyRun = \<lparr>backend = (), store = [], trace = []\<rparr>"

subsection \<open>Fixtures for the offers processor\<close>

definition testOffer :: "int \<Rightarrow> Offer" where
  "testOffer i = \<lparr>SellerID = ''GSELLER'', OfferID = i, SellingAsset = ''native'',
     BuyingAsset = ''EUR'', RowAmount = 10, Pricen = 1, Priced = 2, RowFlags = 0,
     LastModifiedLedger = 1, Sponsor = None\<rparr>"

definition testOfferEntry :: "int \<Rightarrow> LedgerEntry" where
  "testOfferEntry i = \<lparr>LastModifiedLedgerSeq = 1,
     Data = OfferEntryData \<lparr>SellerId = ''GSELLER'', OfferId = i, Selling = ''native'',
       Buying = ''EUR'', Amount = 10, PriceN = 1, PriceD = 2, Flags = 0\<rparr>,
     SponsoringID = None\<rparr>"

text \<open>
  A table with offer 1 deleted at ledger 5, offer 2 deleted at ledger 60 and offer 3
  live; a processor whose cache holds the removal of offer 3.
\<close>

definition testStore :: OffersStore where
  "testStore = \<lparr>offers = [\<lparr>offer = testOffer 1, deleted_at = Some 5\<rparr>,
                           \<lparr>offer = testOffer 2, deleted_at = Some 60\<rparr>,
                           \<lparr>offer = testOffer 3, deleted_at = None\<rparr>],
                 batch = [], compactions = [], dbError = None\<rparr>"

definition removal3 :: "u32 \<Rightarrow> OffersProcessor" where
  "removal3 s = \<lparr>sequence' = s,
     cache = [\<lparr>ChangeType = LedgerEntryTypeOffer, Pre = Some (testOfferEntry 3), Post = None\<rparr>]\<rparr>"

section \<open>Properties of runFromParams\<close>

lemma rfp_one: "runFromParams a 1 =
   (0, [], 0, Some ''CaptiveCore is unable to start from ledger 1, start from ledger 2'')"
  by (simp add: runFromParams_def)

lemma rfp_low: "from0 \<noteq> 1 \<Longrightarrow> from0 \<le> 63 \<Longrightarrow> runFromParams a from0 =
   (case GetLedgerHeader a 3 of
      Inl err2 \<Rightarrow> (2, [], 2, Some (Wrap err2 (''error trying to read ledger header '' @ fmt_d 3 @ '' from HAS'')))
    | Inr h \<Rightarrow> (2, EncodeToString (PreviousLedgerHash h), 2, None))"
  by (simp add: runFromParams_def)

lemma rfp_high: "from0 \<noteq> 1 \<Longrightarrow> \<not> from0 \<le> 63 \<Longrightarrow>
   f = (if \<not> IsCheckpoint a from0 then PrevCheckpoint a from0 else from0) \<Longrightarrow>
   runFromParams a from0 =
   (case GetLedgerHeader a f of
      Inl err2 \<Rightarrow> (f - 1, [], max 2 (f - 63), Some (Wrap err2 (''error trying to read ledger header '' @ fmt_d f @ '' from HAS'')))
    | Inr h \<Rightarrow> (f - 1, EncodeToString (PreviousLedgerHash h), max 2 (f - 63), None))"
proof -
  assume a: "from0 \<noteq> 1" "\<not> from0 \<le> 63"
    and f: "f = (if \<not> IsCheckpoint a from0 then PrevCheckpoint a from0 else from0)"
  have m: "\<And>g::u32. (if g - 63 < 2 then 2 else g - 63) = max 2 (g - 63)"
    by (auto simp: max_def)
  show ?thesis
  proof (cases "IsCheckpoint a from0")
    case True
    then have "f = from0" using f by simp
    then show ?thesis using a True by (auto simp: runFromParams_def Let_def m)
  next
    case False
    then have "f = PrevCheckpoint a from0" using f by simp
    then show ?thesis using a False by (auto simp: runFromParams_def Let_def m)
  qed
qed

text \<open>
  C1. \<open>runFromParams\<close> follows the table of the spec: an error for \<open>from = 1\<close>; \<open>runFrom = 2\<close>
  and \<open>nextLedger = 2\<close> for \<open>2 \<le> from \<le> 63\<close>; beyond 63, with \<open>f\<close> the requested ledger
  when it is a checkpoint and the previous checkpoint otherwise, \<open>runFrom = f - 1\<close> and
  \<open>nextLedger = f - 63\<close> raised to at least 2. Whenever \<open>from \<noteq> 1\<close>, \<open>nextLedger\<close> is at
  least 2, the archive is asked for the header of ledger \<open>runFrom + 1\<close>, and the returned
  hash is the hexadecimal form of that header's previous-ledger hash (or the read error
  is returned).
\<close>

theorem runFromParams_table:
  "(from0 = 1 \<longrightarrow> snd (snd (snd (runFromParams a from0))) =
       Some ''CaptiveCore is unable to start from ledger 1, start from ledger 2'') \<and>
   (2 \<le> from0 \<and> from0 \<le> 63 \<longrightarrow>
       fst (runFromParams a from0) = 2 \<and> fst (snd (snd (runFromParams a from0))) = 2) \<and>
   (63 < from0 \<and> IsCheckpoint a from0 \<longrightarrow>
       fst (runFromParams a from0) = from0 - 1 \<and>
       fst (snd (snd (runFromParams a from0))) = max 2 (from0 - 63)) \<and>
   (63 < from0 \<and> \<not> IsCheckpoint a from0 \<longrightarrow>
       fst (runFromParams a from0) = PrevCheckpoint a from0 - 1 \<and>
       fst (snd (snd (runFromParams a from0))) = max 2 (PrevCheckpoint a from0 - 63)) \<and>
   (from0 \<noteq> 1 \<longrightarrow>
       2 \<le> fst (snd (snd (runFromParams a from0))) \<and>
       (case GetLedgerHeader a (fst (runFromParams a from0) + 1) of
          Inr h \<Rightarrow> fst (snd (runFromParams a from0)) = EncodeToString (PreviousLedgerHash h) \<and>
                   snd (snd (snd (runFromParams a from0))) = None
        | Inl e \<Rightarrow> fst (snd (runFromParams a from0)) = [] \<and>
                   snd (snd (snd (runFromParams a from0))) =
                     Some (Wrap e (''error trying to read ledger header '' @
                        fmt_d (fst (runFromParams a from0) + 1) @ '' from HAS''))))"
proof (intro conjI impI)
  assume "from0 = 1"
  then show "snd (snd (snd (runFromParams a from0))) =
       Some ''CaptiveCore is unable to start from ledger 1, start from ledger 2''"
    by (simp add: rfp_one)
next
  assume h: "2 \<le> from0 \<and> from0 \<le> 63"
  then have n1: "from0 \<noteq> 1" by (auto simp: word_le_nat_alt)
  show "fst (runFromParams a from0) = 2"
    using h n1 by (simp add: rfp_low split: sum.split)
  show "fst (snd (snd (runFromParams a from0))) = 2"
    using h n1 by (simp add: rfp_low split: sum.split)
next
  assume h: "63 < from0 \<and> IsCheckpoint a from0"
  then have n1: "from0 \<noteq> 1" by (auto simp: word_less_nat_alt)
  from h have n2: "\<not> from0 \<le> 63" by (simp add: not_le)
  have e: "from0 = (if \<not> IsCheckpoint a from0 then PrevCheckpoint a from0 else from0)"
    using h by simp
  show "fst (runFromParams a from0) = from0 - 1"
    by (simp add: rfp_high [OF n1 n2 e] split: sum.split)
  show "fst (snd (snd (runFromParams a from0))) = max 2 (from0 - 63)"
    by (simp add: rfp_high [OF n1 n2 e] split: sum.split)
next
  assume h: "63 < from0 \<and> \<not> IsCheckpoint a from0"
  then have n1: "from0 \<noteq> 1" by (auto simp: word_less_nat_alt)
  from h have n2: "\<not> from0 \<le> 63" by (simp add: not_le)
  have e: "PrevCheckpoint a from0 = (if \<not> IsCheckpoint a from0 then PrevCheckpoint a from0 else from0)"
    using h by simp
  show "fst (runFromParams a from0) = PrevCheckpoint a from0 - 1"
    by (simp add: rfp_high [OF n1 n2 e] split: sum.split)
  show "fst (snd (snd (runFromParams a from0))) = max 2 (PrevCheckpoint a from0 - 63)"
    by (simp add: rfp_high [OF n1 n2 e] split: sum.split)
next
  assume n1: "from0 \<noteq> 1"
  show "2 \<le> fst (snd (snd (runFromParams a from0)))"
  proof (cases "from0 \<le> 63")
    case True
    then show ?thesis using n1 by (simp add: rfp_low split: sum.split)
  next
    case False
    show ?thesis by (simp add: rfp_high [OF n1 False refl] split: sum.split)
  qed
  show "case GetLedgerHeader a (fst (runFromParams a from0) + 1) of
          Inr h \<Rightarrow> fst (snd (runFromParams a from0)) = EncodeToString (PreviousLedgerHash h) \<and>
                   snd (snd (snd (runFromParams a from0))) = None
        | Inl e \<Rightarrow> fst (snd (runFromParams a from0)) = [] \<and>
                   snd (snd (snd (runFromParams a from0))) =
                     Some (Wrap e (''error trying to read ledger header '' @
                        fmt_d (fst (runFromParams a from0) + 1) @ '' from HAS''))"
  proof (cases "from0 \<le> 63")
    case True
    show ?thesis
      by (cases "GetLedgerHeader a 3") (simp_all add: rfp_low [OF n1 True])
  next
    case False
    define f where "f = (if \<not> IsCheckpoint a from0 then PrevCheckpoint a from0 else from0)"
    show ?thesis
      by (cases "GetLedgerHeader a f") (simp_all add: rfp_high [OF n1 False f_def])
  qed
qed

theorem runFromParams_table_witness:
  "snd (snd (snd (runFromParams testArchive 1))) =
      Some ''CaptiveCore is unable to start from ledger 1, start from ledger 2'' \<and>
   fst (runFromParams testArchive 40) = 2 \<and>
   fst (snd (snd (runFromParams testArchive 40))) = 2 \<and>
   fst (runFromParams testArchive 127) = 126 \<and>
   fst (snd (snd (runFromParams testArchive 127))) = 64 \<and>
   fst (runFromParams testArchive 128) = 126 \<and>
   fst (snd (snd (runFromParams testArchive 128))) = 64 \<and>
   fst (snd (runFromParams testArchive 128)) = ''01010101'' \<and>
   snd (snd (snd (runFromParams testArchive 128))) = None"
proof -
  have a: "snd (snd (snd (runFromParams testArchive 1))) =
      Some ''CaptiveCore is unable to start from ledger 1, start from ledger 2''"
    using runFromParams_table [of 1 testArchive] by simp
  have h40: "(2::u32) \<le> 40 \<and> (40::u32) \<le> 63" by simp
  have b: "fst (runFromParams testArchive 40) = 2 \<and>
      fst (snd (snd (runFromParams testArchive 40))) = 2"
    using runFromParams_table [of 40 testArchive] h40 by blast
  have h127: "(63::u32) < 127 \<and> IsCheckpoint testArchive 127"
    by (simp add: testArchive_def)
  have c: "fst (runFromParams testArchive 127) = 126 \<and>
      fst (snd (snd (runFromParams testArchive 127))) = 64"
    using runFromParams_table [of 127 testArchive] h127 by simp
  have h128: "(63::u32) < 128 \<and> \<not> IsCheckpoint testArchive 128"
    by (simp add: testArchive_def)
  have p128: "PrevCheckpoint testArchive 128 = 127"
    by (simp add: testArchive_def)
  have n128: "(128::u32) \<noteq> 1" by simp
  have g128: "GetLedgerHeader testArchive (126 + 1) = Inr \<lparr>LedgerSeq = 127, LedgerVersion = 13,
        PreviousLedgerHash = [1, 1, 1, 1], BucketListHash = []\<rparr>"
    by (simp add: testArchive_def)
  have d: "fst (runFromParams testArchive 128) = 126 \<and>
      fst (snd (snd (runFromParams testArchive 128))) = 64"
    using runFromParams_table [of 128 testArchive] h128 p128 by simp
  have e: "fst (snd (runFromParams testArchive 128)) = ''01010101'' \<and>
      snd (snd (snd (runFromParams testArchive 128))) = None"
    using runFromParams_table [of 128 testArchive] n128 d g128
    by (simp add: EncodeToString_def hexDigit_def)
  from a b c d e show ?thesis by simp
qed

section \<open>Properties of the captive backend\<close>

subsection \<open>What Close, the goroutine and a receive leave unchanged\<close>

lemma Close_fields:
  "nextLedger (snd (Close c)) = 0"
  "lastLedger (snd (Close c)) = None"
  "cachedMeta (snd (Close c)) = cachedMeta c"
  "hcnetCoreRunner (snd (Close c)) = None"
  "shutdown (snd (Close c)) = False"
  "metaC (snd (Close c)) = metaC c"
  by (simp_all add: Close_def Let_def split: option.splits)

lemma Close_idem: "Close (snd (Close c)) = (None, snd (Close c))"
  by (simp add: Close_def Let_def split: option.splits)

lemma Close_eq_fields:
  assumes "Close c = (e, c')"
  shows "nextLedger c' = 0" "lastLedger c' = None" "cachedMeta c' = cachedMeta c"
proof -
  from assms have "c' = snd (Close c)" by simp
  then show "nextLedger c' = 0" "lastLedger c' = None" "cachedMeta c' = cachedMeta c"
    by (simp_all add: Close_fields)
qed

lemma readLedgerMetaFromPipe_fields:
  assumes "readLedgerMetaFromPipe c = Some (x, c1)"
  shows "nextLedger c1 = nextLedger c" "lastLedger c1 = lastLedger c"
    "cachedMeta c1 = cachedMeta c" "blocking c1 = blocking c" "metaC c1 = metaC c"
  using assms
  by (auto simp: readLedgerMetaFromPipe_def Let_def
      split: option.splits list.splits pipeRead.splits)

lemma sendLedgerMeta_fields:
  "nextLedger (sendLedgerMeta c) = nextLedger c"
  "lastLedger (sendLedgerMeta c) = lastLedger c"
  "cachedMeta (sendLedgerMeta c) = cachedMeta c"
  "blocking (sendLedgerMeta c) = blocking c"
  by (auto simp: sendLedgerMeta_def Let_def readLedgerMetaFromPipe_fields
      split: option.splits sum.splits)

lemma recvMetaC_fields:
  assumes "recvMetaC c = Some (x, c1)"
  shows "nextLedger c1 = nextLedger c" "lastLedger c1 = lastLedger c"
    "cachedMeta c1 = cachedMeta c" "blocking c1 = blocking c"
  using assms
  by (auto simp: recvMetaC_def Let_def sendLedgerMeta_fields split: list.splits)


subsection \<open>The loop of GetLedger\<close>

lemma loop_empty:
  "\<not> blocking c \<Longrightarrow> metaC c = [] \<Longrightarrow>
     getLedgerLoop sequence c = Some ((False, emptyMeta, None), c)"
  by (subst getLedgerLoop.simps) simp

lemma loop_recv_none:
  "blocking c \<or> metaC c \<noteq> [] \<Longrightarrow> recvMetaC c = None \<Longrightarrow> getLedgerLoop sequence c = None"
  by (subst getLedgerLoop.simps) auto

lemma loop_recv_err:
  "blocking c \<or> metaC c \<noteq> [] \<Longrightarrow> recvMetaC c = Some (Inl err, c1) \<Longrightarrow>
     getLedgerLoop sequence c = Some ((False, emptyMeta, Some err), snd (Close c1))"
  by (subst getLedgerLoop.simps) auto

lemma loop_recv_unexpected:
  "blocking c \<or> metaC c \<noteq> [] \<Longrightarrow> recvMetaC c = Some (Inr m, c1) \<Longrightarrow>
   LedgerSequence m \<noteq> nextLedger c1 \<Longrightarrow>
     getLedgerLoop sequence c =
       Some ((False, emptyMeta,
              Some (''unexpected ledger (expected='' @ fmt_d (nextLedger c1) @
                    '' actual='' @ fmt_d (LedgerSequence m) @ '')'')),
             snd (Close c1))"
  by (subst getLedgerLoop.simps) (auto simp: Let_def)

lemma loop_recv_found:
  "blocking c \<or> metaC c \<noteq> [] \<Longrightarrow> recvMetaC c = Some (Inr m, c1) \<Longrightarrow>
   LedgerSequence m = nextLedger c1 \<Longrightarrow> LedgerSequence m = sequence \<Longrightarrow>
   c3 = c1\<lparr>nextLedger := nextLedger c1 + 1, cachedMeta := Some m\<rparr> \<Longrightarrow>
     getLedgerLoop sequence c =
       (if lastLedger c1 = Some sequence then
          (case fst (Close c3) of
             Some err \<Rightarrow>
               Some ((False, emptyMeta, Some (Wrap err ''error closing session'')), snd (Close c3))
           | None \<Rightarrow> Some ((True, m, None), snd (Close c3)))
        else Some ((True, m, None), c3))"
  by (subst getLedgerLoop.simps) (auto simp: Let_def split: prod.splits option.splits)

lemma loop_recv_skip:
  "blocking c \<or> metaC c \<noteq> [] \<Longrightarrow> recvMetaC c = Some (Inr m, c1) \<Longrightarrow>
   LedgerSequence m = nextLedger c1 \<Longrightarrow> LedgerSequence m \<noteq> sequence \<Longrightarrow>
     getLedgerLoop sequence c = getLedgerLoop sequence (c1\<lparr>nextLedger := nextLedger c1 + 1\<rparr>)"
  by (subst getLedgerLoop.simps) (auto simp: Let_def)

lemma getLedgerLoop_found:
  "getLedgerLoop sequence c = Some ((True, m, e), c') \<Longrightarrow>
     cachedMeta c' = Some m \<and> LedgerSequence m = sequence \<and> e = None \<and>
     (lastLedger c = Some sequence \<longrightarrow> nextLedger c' = 0)"
proof (induction sequence c rule: getLedgerLoop.induct)
  case (1 sequence c)
  show ?case
  proof (cases "\<not> blocking c \<and> length (metaC c) = 0")
    case True
    with "1.prems" show ?thesis by (simp add: loop_empty)
  next
    case nbf: False
    then have nb: "blocking c \<or> metaC c \<noteq> []" by simp
    show ?thesis
    proof (cases "recvMetaC c")
      case None
      with nb "1.prems" show ?thesis by (simp add: loop_recv_none)
    next
      case (Some p)
      obtain r c1 where p: "p = (r, c1)" by (cases p)
      with Some have rc: "recvMetaC c = Some (r, c1)" by simp
      show ?thesis
      proof (cases r)
        case (Inl err)
        with nb rc "1.prems" show ?thesis by (simp add: loop_recv_err)
      next
        case (Inr x)
        with rc have rx: "recvMetaC c = Some (Inr x, c1)" by simp
        show ?thesis
        proof (cases "LedgerSequence x \<noteq> nextLedger c1")
          case True
          with nb rx "1.prems" show ?thesis by (simp add: loop_recv_unexpected)
        next
          case okf: False
          then have ok: "LedgerSequence x = nextLedger c1" by simp
          show ?thesis
          proof (cases "LedgerSequence x = sequence")
            case True
            from "1.prems" show ?thesis
              unfolding loop_recv_found [OF nb rx ok True refl]
              using recvMetaC_fields(2) [OF rx] True
              by (auto simp: Close_fields split: if_splits option.splits)
          next
            case neq: False
            from "1.prems" have "getLedgerLoop sequence (c1\<lparr>nextLedger := nextLedger c1 + 1\<rparr>) =
                    Some ((True, m, e), c')"
              unfolding loop_recv_skip [OF nb rx ok neq] .
            from "1.IH" [OF nbf Some p [symmetric] Inr refl okf refl neq this]
            show ?thesis using recvMetaC_fields(2) [OF rx] by simp
          qed
        qed
      qed
    qed
  qed
qed


lemmas eval_defs = GetLedger_def recvMetaC_def sendLedgerMeta_def readLedgerMetaFromPipe_def
  Close_def Let_def testRunner_def testConfig_def ledger_def LedgerSequence_def
  readAheadBufferSize_def isClosed_def cacheHit_def

subsection \<open>The sessions used as examples are what PrepareRange opens\<close>

lemma PrepareRange_gap_64_66:
  "PrepareRange (testConfig [Frame (ledger 64), Frame (ledger 65), Frame (ledger 68)]) NewCaptive
     (BoundedRange 65 66) = Some (None, gap_64_66)"
  by (simp add: PrepareRange_def IsPrepared_def NewCaptive_def BoundedRange_def
       openOfflineReplaySubprocess_def getLatestCheckpointSequence_def testArchive_def
       ensureRunner_def roundDownToFirstReplayAfterCheckpointStart_def ledgersPerCheckpoint_def
       waitForFirstLedger_def gap_64_66_def eval_defs)

lemma PrepareRange_unbounded_4:
  "PrepareRange (testConfig [Frame (ledger 2), Frame (ledger 3), Frame (ledger 4),
       Frame (ledger 5), Frame (ledger 6), Frame (ledger 7)]) NewCaptive (UnboundedRange 4) =
     Some (None, unbounded_4)"
  by (simp add: PrepareRange_def IsPrepared_def NewCaptive_def UnboundedRange_def
       openOnlineReplaySubprocess_def getLatestCheckpointSequence_def testArchive_def
       ensureRunner_def runFromParams_def EncodeToString_def hexDigit_def
       waitForFirstLedger_def unbounded_4_def eval_defs getLedgerLoop.simps)

subsection \<open>GetLedger and the cache\<close>

lemma GetLedger_cached:
  "cachedMeta c = Some m \<Longrightarrow> LedgerSequence m = sequence \<Longrightarrow>
     GetLedger c sequence = Some ((True, m, None), c)"
  by (simp add: GetLedger_def)

lemma GetLedger_uncached:
  "\<not> cacheHit c sequence \<Longrightarrow>
     GetLedger c sequence =
       (if isClosed c then
          Some ((False, emptyMeta, Some ''session is closed, call PrepareRange first''), c)
        else if sequence < nextLedger c then
          Some ((False, emptyMeta,
                 Some (''requested ledger '' @ fmt_d sequence @
                       '' is behind the captive core stream (expected='' @
                       fmt_d (nextLedger c) @ '')'')), c)
        else getLedgerLoop sequence c)"
  by (simp add: GetLedger_def cacheHit_def split: option.splits)

lemma cacheHit_Close: "cacheHit (snd (Close c)) sequence = cacheHit c sequence"
  by (simp add: cacheHit_def Close_fields)

lemma GetLedger_closed:
  "\<not> cacheHit c sequence \<Longrightarrow>
     GetLedger (snd (Close c)) sequence =
       Some ((False, emptyMeta, Some ''session is closed, call PrepareRange first''), snd (Close c))"
  by (simp add: GetLedger_uncached cacheHit_Close isClosed_def Close_fields)

text \<open>
  C3, as the code has it. After \<open>Close\<close>, a \<open>GetLedger\<close> for any sequence but that of the
  cached meta returns the error \<open>session is closed, call PrepareRange first\<close> and leaves
  the state as it is; a \<open>GetLedger\<close> for the sequence of the cached meta still returns that
  meta. A second \<open>Close\<close> returns no error and changes nothing.
\<close>

theorem GetLedger_after_Close:
  "(\<not> cacheHit c sequence \<longrightarrow>
      GetLedger (snd (Close c)) sequence =
        Some ((False, emptyMeta, Some ''session is closed, call PrepareRange first''),
              snd (Close c))) \<and>
   (cachedMeta c = Some m \<and> LedgerSequence m = sequence \<longrightarrow>
      GetLedger (snd (Close c)) sequence = Some ((True, m, None), snd (Close c))) \<and>
   Close (snd (Close c)) = (None, snd (Close c))"
  by (simp add: GetLedger_closed GetLedger_cached Close_fields Close_idem)

theorem GetLedger_after_Close_witness:
  "GetLedger (snd (Close stale_2_3)) 2 =
     Some ((False, emptyMeta, Some ''session is closed, call PrepareRange first''),
           snd (Close stale_2_3)) \<and>
   GetLedger (snd (Close stale_2_3)) 3 = Some ((True, ledger 3, None), snd (Close stale_2_3)) \<and>
   Close (snd (Close stale_2_3)) = (None, snd (Close stale_2_3))"
proof -
  have miss: "\<not> cacheHit stale_2_3 2"
    by (simp add: cacheHit_def stale_2_3_def ledger_def LedgerSequence_def)
  have hit: "cachedMeta stale_2_3 = Some (ledger 3) \<and> LedgerSequence (ledger 3) = 3"
    by (simp add: stale_2_3_def ledger_def LedgerSequence_def)
  from GetLedger_after_Close [of stale_2_3 2 "ledger 3"] miss
  have a: "GetLedger (snd (Close stale_2_3)) 2 =
     Some ((False, emptyMeta, Some ''session is closed, call PrepareRange first''),
           snd (Close stale_2_3))" by blast
  from GetLedger_after_Close [of stale_2_3 3 "ledger 3"] hit
  have b: "GetLedger (snd (Close stale_2_3)) 3 = Some ((True, ledger 3, None), snd (Close stale_2_3))
     \<and> Close (snd (Close stale_2_3)) = (None, snd (Close stale_2_3))" by blast
  from a b show ?thesis by simp
qed

text \<open>
  The claim as stated fails: the session that served ledger 3 and was closed still
  answers \<open>GetLedger 3\<close> from its cache, with no error.
\<close>

theorem GetLedger_after_Close_counterexample:
  "GetLedger (snd (Close closed_after_3)) 3 =
      Some ((True, ledger 3, None), snd (Close closed_after_3)) \<and>
   GetLedger (snd (Close closed_after_3)) 3 \<noteq>
      Some ((False, emptyMeta, Some ''session is closed, call PrepareRange first''),
            snd (Close closed_after_3))"
  by (simp add: closed_after_3_def eval_defs)

text \<open>
  C6. When \<open>GetLedger\<close> has returned a ledger, a second call with the same sequence
  returns the same meta and the state it was given: nothing is received from the channel
  and \<open>nextLedger\<close> stays.
\<close>

theorem GetLedger_reread:
  assumes "GetLedger c sequence = Some ((True, m, None), c')"
  shows "GetLedger c' sequence = Some ((True, m, None), c')"
proof -
  have "cachedMeta c' = Some m \<and> LedgerSequence m = sequence"
  proof (cases "cacheHit c sequence")
    case True
    with assms show ?thesis
      by (auto simp: GetLedger_def cacheHit_def split: option.splits if_splits)
  next
    case False
    with assms have "getLedgerLoop sequence c = Some ((True, m, None), c')"
      by (simp add: GetLedger_uncached split: if_splits)
    then show ?thesis using getLedgerLoop_found by blast
  qed
  then show ?thesis by (simp add: GetLedger_cached)
qed

text \<open>
  Two open sessions. In the unbounded one the channel holds ledgers 5 and 6 when
  \<open>GetLedger 5\<close> is called: the second \<open>GetLedger 5\<close> leaves ledger 6 in the channel and
  \<open>nextLedger\<close> at 6. In the bounded one ledger 3 is still to come after \<open>GetLedger 2\<close>:
  the second \<open>GetLedger 2\<close> leaves the pipe unread and \<open>nextLedger\<close> at 3.
\<close>

theorem GetLedger_reread_witness:
  "GetLedger (sendLedgerMeta unbounded_4) 5 = Some ((True, ledger 5, None), unbounded_5) \<and>
   metaC unbounded_5 = [Inr (ledger 6)] \<and> nextLedger unbounded_5 = 6 \<and>
   GetLedger unbounded_5 5 = Some ((True, ledger 5, None), unbounded_5) \<and>
   GetLedger bounded_2_3 2 = Some ((True, ledger 2, None), bounded_at_3) \<and>
   hcnetCoreRunner bounded_at_3 = Some (testRunner [Frame (ledger 3)]) \<and>
   nextLedger bounded_at_3 = 3 \<and>
   GetLedger bounded_at_3 2 = Some ((True, ledger 2, None), bounded_at_3)"
proof -
  have a: "GetLedger (sendLedgerMeta unbounded_4) 5 = Some ((True, ledger 5, None), unbounded_5)"
    by (simp add: unbounded_4_def unbounded_5_def eval_defs getLedgerLoop.simps)
  have b: "GetLedger bounded_2_3 2 = Some ((True, ledger 2, None), bounded_at_3)"
    by (simp add: bounded_2_3_def bounded_at_3_def eval_defs getLedgerLoop.simps)
  have c: "metaC unbounded_5 = [Inr (ledger 6)] \<and> nextLedger unbounded_5 = 6"
    by (simp add: unbounded_5_def)
  have d: "hcnetCoreRunner bounded_at_3 = Some (testRunner [Frame (ledger 3)]) \<and>
     nextLedger bounded_at_3 = 3"
    by (simp add: bounded_at_3_def)
  from a b c d GetLedger_reread [OF a] GetLedger_reread [OF b] show ?thesis by simp
qed

text \<open>
  What the stream path does: in a bounded session ending at \<open>b\<close>, a \<open>GetLedger b\<close> that
  is not answered from the cache and returns the ledger leaves the backend closed, and
  \<open>GetLatestLedgerSequence\<close> then returns an error.
\<close>

lemma GetLedger_last_closes_stream:
  assumes "lastLedger c = Some b" and "\<not> cacheHit c b"
    and "GetLedger c b = Some ((True, m, None), c')"
  shows "isClosed c' \<and>
    GetLatestLedgerSequence c' =
      (0, Some ''hcnet-core must be opened to return latest available sequence'')"
proof -
  from assms(2,3) have "getLedgerLoop b c = Some ((True, m, None), c')"
    by (simp add: GetLedger_uncached split: if_splits)
  with assms(1) have "nextLedger c' = 0" using getLedgerLoop_found by blast
  then show ?thesis by (simp add: isClosed_def GetLatestLedgerSequence_def)
qed

text \<open>
  What the cache path does: in an open bounded session ending at \<open>b\<close> whose cache holds
  ledger \<open>b\<close>, \<open>GetLedger b\<close> returns the cached ledger and the state it was given, so the
  session stays open and \<open>GetLatestLedgerSequence\<close> still returns \<open>b\<close>.
\<close>

lemma GetLedger_last_cached_stays_open:
  assumes "lastLedger c = Some b" and "cachedMeta c = Some m" and "LedgerSequence m = b"
    and "\<not> isClosed c"
  shows "GetLedger c b = Some ((True, m, None), c) \<and> \<not> isClosed c \<and>
    GetLatestLedgerSequence c = (b, None)"
  using assms by (simp add: GetLedger_cached GetLatestLedgerSequence_def)

text \<open>
  C7. The code departs from the claim. Prepare \<open>[3, 3]\<close> and read ledger 3 from the
  stream: the session closes, and ledger 3 stays in the cache, which neither \<open>Close\<close> nor
  \<open>PrepareRange\<close> clears. Prepare \<open>[3, 3]\<close> again: a new subprocess is started, but
  \<open>GetLedger 3\<close>, the last ledger of the range, is answered from the cache; the backend is
  not closed and \<open>GetLatestLedgerSequence\<close> returns 3 with no error.
\<close>

theorem GetLedger_last_from_stale_cache:
  "PrepareRange (testConfig [Frame (ledger 2), Frame (ledger 3)]) NewCaptive (BoundedRange 3 3) =
      Some (None, bounded_2_3) \<and>
   GetLedger bounded_2_3 3 = Some ((True, ledger 3, None), closed_after_3) \<and>
   isClosed closed_after_3 \<and>
   PrepareRange (testConfig [Frame (ledger 2), Frame (ledger 3)]) closed_after_3 (BoundedRange 3 3) =
      Some (None, stale_2_3) \<and>
   calls stale_2_3 = [CallCatchup 3 3, CallClose, CallCatchup 3 3] \<and>
   lastLedger stale_2_3 = Some 3 \<and>
   GetLedger stale_2_3 3 = Some ((True, ledger 3, None), stale_2_3) \<and>
   isClosed stale_2_3 = False \<and>
   GetLatestLedgerSequence stale_2_3 = (3, None)"
proof -
  note prep = PrepareRange_def IsPrepared_def BoundedRange_def
       openOfflineReplaySubprocess_def getLatestCheckpointSequence_def testArchive_def
       ensureRunner_def roundDownToFirstReplayAfterCheckpointStart_def ledgersPerCheckpoint_def
       waitForFirstLedger_def
  have a: "PrepareRange (testConfig [Frame (ledger 2), Frame (ledger 3)]) NewCaptive
      (BoundedRange 3 3) = Some (None, bounded_2_3)"
    by (simp add: prep NewCaptive_def bounded_2_3_def eval_defs)
  have b: "GetLedger bounded_2_3 3 = Some ((True, ledger 3, None), closed_after_3) \<and>
     isClosed closed_after_3"
    by (simp add: bounded_2_3_def closed_after_3_def eval_defs getLedgerLoop.simps)
  have c: "PrepareRange (testConfig [Frame (ledger 2), Frame (ledger 3)]) closed_after_3
      (BoundedRange 3 3) = Some (None, stale_2_3)"
    by (simp add: prep closed_after_3_def stale_2_3_def eval_defs)
  have d: "calls stale_2_3 = [CallCatchup 3 3, CallClose, CallCatchup 3 3] \<and>
     lastLedger stale_2_3 = Some 3 \<and>
     GetLedger stale_2_3 3 = Some ((True, ledger 3, None), stale_2_3) \<and>
     isClosed stale_2_3 = False \<and>
     GetLatestLedgerSequence stale_2_3 = (3, None)"
    by (simp add: stale_2_3_def eval_defs GetLatestLedgerSequence_def)
  from a b c d show ?thesis by simp
qed

subsection \<open>Gaps in the stream and the latest sequence\<close>

text \<open>
  C5. In any turn of the loop of \<open>GetLedger\<close>, when the item received from the channel is
  a ledger whose sequence is not \<open>nextLedger\<close>, the call closes the backend and returns
  the error \<open>unexpected ledger (expected=<nextLedger> actual=<seq>)\<close>; this is the result
  of \<open>GetLedger\<close> itself when the item is the first one it receives. The backend is then
  closed: every later \<open>GetLedger\<close> not answered from the cache fails with
  \<open>session is closed, call PrepareRange first\<close>.
\<close>

theorem GetLedger_unexpected_ledger:
  assumes "blocking c \<or> metaC c \<noteq> []"
    and "recvMetaC c = Some (Inr m, c1)"
    and "LedgerSequence m \<noteq> nextLedger c"
  shows "getLedgerLoop sequence c =
           Some ((False, emptyMeta,
                  Some (''unexpected ledger (expected='' @ fmt_d (nextLedger c) @
                        '' actual='' @ fmt_d (LedgerSequence m) @ '')'')),
                 snd (Close c1)) \<and>
         (\<not> cacheHit c sequence \<and> \<not> isClosed c \<and> nextLedger c \<le> sequence \<longrightarrow>
            GetLedger c sequence =
              Some ((False, emptyMeta,
                     Some (''unexpected ledger (expected='' @ fmt_d (nextLedger c) @
                           '' actual='' @ fmt_d (LedgerSequence m) @ '')'')),
                    snd (Close c1))) \<and>
         isClosed (snd (Close c1)) \<and>
         (\<forall>s. \<not> cacheHit c s \<longrightarrow>
            GetLedger (snd (Close c1)) s =
              Some ((False, emptyMeta, Some ''session is closed, call PrepareRange first''),
                    snd (Close c1)))"
proof -
  have n: "nextLedger c1 = nextLedger c" and cm: "cachedMeta c1 = cachedMeta c"
    using recvMetaC_fields [OF assms(2)] by simp_all
  have loop: "getLedgerLoop sequence c =
           Some ((False, emptyMeta,
                  Some (''unexpected ledger (expected='' @ fmt_d (nextLedger c) @
                        '' actual='' @ fmt_d (LedgerSequence m) @ '')'')),
                 snd (Close c1))"
    using loop_recv_unexpected [OF assms(1,2)] assms(3) n by simp
  have hit: "\<And>s. cacheHit c1 s = cacheHit c s"
    by (simp add: cacheHit_def cm)
  have closed: "isClosed (snd (Close c1))"
    by (simp add: isClosed_def Close_fields)
  have later: "\<forall>s. \<not> cacheHit c s \<longrightarrow>
            GetLedger (snd (Close c1)) s =
              Some ((False, emptyMeta, Some ''session is closed, call PrepareRange first''),
                    snd (Close c1))"
    using GetLedger_closed [of c1] hit by simp
  have top: "\<not> cacheHit c sequence \<and> \<not> isClosed c \<and> nextLedger c \<le> sequence \<longrightarrow>
            GetLedger c sequence = getLedgerLoop sequence c"
    by (auto simp: GetLedger_uncached)
  from loop top closed later show ?thesis by simp
qed

theorem GetLedger_unexpected_ledger_witness:
  "recvMetaC gap_at_66 = Some (Inr (ledger 68), gap_at_66\<lparr>hcnetCoreRunner := Some (testRunner []),
      reading := None\<rparr>) \<and>
   GetLedger gap_at_66 66 =
     Some ((False, emptyMeta, Some ''unexpected ledger (expected=66 actual=68)''), gap_closed) \<and>
   GetLedger gap_64_66 66 =
     Some ((False, emptyMeta, Some ''unexpected ledger (expected=66 actual=68)''), gap_closed) \<and>
   isClosed gap_closed \<and>
   GetLedger gap_closed 67 =
     Some ((False, emptyMeta, Some ''session is closed, call PrepareRange first''), gap_closed)"
proof -
  let ?c1 = "gap_at_66\<lparr>hcnetCoreRunner := Some (testRunner []), reading := None\<rparr>"
  have fmt: "fmt_d 66 = ''66''" "fmt_d 68 = ''68''"
    by (simp_all add: fmt_d_def decimal.simps digit_def)
  have a: "blocking gap_at_66 \<or> metaC gap_at_66 \<noteq> []" by (simp add: gap_at_66_def)
  have b: "recvMetaC gap_at_66 = Some (Inr (ledger 68), ?c1)"
    by (simp add: gap_at_66_def eval_defs)
  have c: "LedgerSequence (ledger 68) \<noteq> nextLedger gap_at_66"
    by (simp add: gap_at_66_def ledger_def LedgerSequence_def)
  have d: "snd (Close ?c1) = gap_closed"
    by (simp add: gap_at_66_def gap_closed_def eval_defs)
  have e: "\<not> cacheHit gap_at_66 66 \<and> \<not> isClosed gap_at_66 \<and> nextLedger gap_at_66 \<le> 66"
    by (simp add: gap_at_66_def cacheHit_def isClosed_def)
  have f: "\<not> cacheHit gap_at_66 67" by (simp add: gap_at_66_def cacheHit_def)
  have g: "LedgerSequence (ledger 68) = 68" "nextLedger gap_at_66 = 66"
    by (simp_all add: gap_at_66_def ledger_def LedgerSequence_def)
  note inst = GetLedger_unexpected_ledger [OF a b c, of 66, unfolded d g fmt]
  have h: "GetLedger gap_64_66 66 = getLedgerLoop 66 gap_at_66"
    by (simp add: gap_64_66_def gap_at_66_def eval_defs getLedgerLoop.simps)
  from inst e f b h show ?thesis by simp
qed

text \<open>
  In an open session \<open>GetLatestLedgerSequence\<close> returns \<open>lastLedger\<close> when the session is
  bounded and \<open>nextLedger - 1 + len(metaC)\<close> when it is unbounded, every item of the channel
  counted; each item the reading goroutine pushes into the channel of an unbounded
  session raises the reported sequence by one.
\<close>

lemma GetLatestLedgerSequence_open:
  "(\<not> isClosed c \<longrightarrow>
      GetLatestLedgerSequence c =
        (case lastLedger c of
           Some l \<Rightarrow> (l, None)
         | None \<Rightarrow> (nextLedger c - 1 + of_nat (length (metaC c)), None))) \<and>
   (\<not> isClosed c \<and> lastLedger c = None \<and>
    length (metaC (sendLedgerMeta c)) = Suc (length (metaC c)) \<longrightarrow>
      GetLatestLedgerSequence (sendLedgerMeta c) =
        (fst (GetLatestLedgerSequence c) + 1, None))"
  by (simp add: GetLatestLedgerSequence_def isClosed_def sendLedgerMeta_fields
      split: option.splits)

text \<open>
  While the channel of an open unbounded session holds ledgers only, the code returns
  what the specification describes.
\<close>

lemma GetLatestLedgerSequence_ledgers_only:
  assumes "\<not> isClosed c" and "lastLedger c = None" and "metaC c = map Inr ms"
  shows "GetLatestLedgerSequence c = (specLatestLedgerSequence c, None)"
proof -
  have "length [m. Inr m \<leftarrow> map Inr ms] = length ms" by (induction ms) simp_all
  with assms(3) have "length (bufferedLedgers c) = length (metaC c)"
    by (simp add: bufferedLedgers_def)
  with assms(1,2) show ?thesis
    by (simp add: GetLatestLedgerSequence_def specLatestLedgerSequence_def)
qed

text \<open>
  C10. The code departs from the claim. The goroutine pushes the error of a failed read
  into the same channel as the ledgers, and \<open>len(c.metaC)\<close> counts it. Prepare an
  unbounded range from ledger 4 on a pipe that ends after ledger 4: the session is open,
  \<open>nextLedger\<close> is 5 and the channel holds the error alone, no ledger. The specification
  gives 4, the last ledger there is; \<open>GetLatestLedgerSequence\<close> returns 5, and
  \<open>GetLedger 5\<close> fails with the buffered error and closes the backend.
\<close>

theorem GetLatestLedgerSequence_counts_error:
  "PrepareRange (testConfig [Frame (ledger 2), Frame (ledger 3), Frame (ledger 4), EOF])
      NewCaptive (UnboundedRange 4) = Some (None, eof_at_5) \<and>
   isClosed eof_at_5 = False \<and>
   lastLedger eof_at_5 = None \<and>
   nextLedger eof_at_5 = 5 \<and>
   bufferedLedgers eof_at_5 = [] \<and>
   specLatestLedgerSequence eof_at_5 = 4 \<and>
   GetLatestLedgerSequence eof_at_5 = (5, None) \<and>
   GetLedger eof_at_5 5 =
      Some ((False, emptyMeta, Some ''got EOF from subprocess: EOF''), eof_closed)"
proof -
  have a: "PrepareRange (testConfig [Frame (ledger 2), Frame (ledger 3), Frame (ledger 4), EOF])
      NewCaptive (UnboundedRange 4) = Some (None, eof_at_5)"
    by (simp add: PrepareRange_def IsPrepared_def NewCaptive_def UnboundedRange_def
       openOnlineReplaySubprocess_def getLatestCheckpointSequence_def testArchive_def
       ensureRunner_def runFromParams_def EncodeToString_def hexDigit_def Wrap_def
       waitForFirstLedger_def eof_at_5_def eval_defs getLedgerLoop.simps)
  have b: "isClosed eof_at_5 = False \<and> lastLedger eof_at_5 = None \<and> nextLedger eof_at_5 = 5 \<and>
     bufferedLedgers eof_at_5 = []"
    by (simp add: eof_at_5_def isClosed_def bufferedLedgers_def)
  have c: "specLatestLedgerSequence eof_at_5 = 4"
    by (simp add: eof_at_5_def specLatestLedgerSequence_def bufferedLedgers_def)
  have d: "GetLatestLedgerSequence eof_at_5 = (5, None)"
    by (simp add: eof_at_5_def GetLatestLedgerSequence_def isClosed_def)
  have e: "GetLedger eof_at_5 5 =
      Some ((False, emptyMeta, Some ''got EOF from subprocess: EOF''), eof_closed)"
    by (simp add: eof_at_5_def eof_closed_def eval_defs getLedgerLoop.simps)
  from a b c d e show ?thesis by simp
qed

subsection \<open>PrepareRange and IsPrepared\<close>

lemma PrepareRange_prepared:
  "IsPrepared c ledgerRange = (True, None) \<Longrightarrow> PrepareRange cfg c ledgerRange = Some (None, c)"
  by (simp add: PrepareRange_def)

lemma IsPrepared_bounded_bounded:
  "lastLedger c = Some l \<Longrightarrow>
     IsPrepared c (BoundedRange f t) = (nextLedger c \<noteq> 0 \<and> nextLedger c \<le> f \<and> nextLedger c \<le> l, None)"
  by (simp add: IsPrepared_def BoundedRange_def)

subsection \<open>The log of runner calls only grows\<close>

lemma Close_calls: "length (calls c) \<le> length (calls (snd (Close c)))"
  by (simp add: Close_def Let_def split: option.splits)

lemma readLedgerMetaFromPipe_calls:
  "readLedgerMetaFromPipe c = Some (x, c1) \<Longrightarrow> calls c1 = calls c"
  by (auto simp: readLedgerMetaFromPipe_def Let_def
      split: option.splits list.splits pipeRead.splits)

lemma sendLedgerMeta_calls: "calls (sendLedgerMeta c) = calls c"
  by (auto simp: sendLedgerMeta_def Let_def readLedgerMetaFromPipe_calls
      split: option.splits sum.splits)

lemma recvMetaC_calls: "recvMetaC c = Some (x, c1) \<Longrightarrow> calls c1 = calls c"
  by (auto simp: recvMetaC_def Let_def sendLedgerMeta_calls split: list.splits)

lemma getLedgerLoop_calls:
  "getLedgerLoop sequence c = Some (res, c') \<Longrightarrow> length (calls c) \<le> length (calls c')"
proof (induction sequence c rule: getLedgerLoop.induct)
  case (1 sequence c)
  show ?case
  proof (cases "\<not> blocking c \<and> length (metaC c) = 0")
    case True
    with "1.prems" show ?thesis by (simp add: loop_empty)
  next
    case nbf: False
    then have nb: "blocking c \<or> metaC c \<noteq> []" by simp
    show ?thesis
    proof (cases "recvMetaC c")
      case None
      with nb "1.prems" show ?thesis by (simp add: loop_recv_none)
    next
      case (Some p)
      obtain r c1 where p: "p = (r, c1)" by (cases p)
      with Some have rc: "recvMetaC c = Some (r, c1)" by simp
      note k = recvMetaC_calls [OF rc]
      show ?thesis
      proof (cases r)
        case (Inl err)
        with nb rc "1.prems" have "c' = snd (Close c1)" by (simp add: loop_recv_err)
        with k Close_calls [of c1] show ?thesis by simp
      next
        case (Inr x)
        with rc have rx: "recvMetaC c = Some (Inr x, c1)" by simp
        show ?thesis
        proof (cases "LedgerSequence x \<noteq> nextLedger c1")
          case True
          with nb rx "1.prems" have "c' = snd (Close c1)" by (simp add: loop_recv_unexpected)
          with k Close_calls [of c1] show ?thesis by simp
        next
          case okf: False
          then have ok: "LedgerSequence x = nextLedger c1" by simp
          show ?thesis
          proof (cases "LedgerSequence x = sequence")
            case True
            let ?c3 = "c1\<lparr>nextLedger := nextLedger c1 + 1, cachedMeta := Some x\<rparr>"
            from "1.prems" have "c' = ?c3 \<or> c' = snd (Close ?c3)"
              unfolding loop_recv_found [OF nb rx ok True refl]
              by (auto split: if_splits option.splits)
            with k Close_calls [of ?c3] show ?thesis by auto
          next
            case neq: False
            from "1.prems" have "getLedgerLoop sequence (c1\<lparr>nextLedger := nextLedger c1 + 1\<rparr>) =
                    Some (res, c')"
              unfolding loop_recv_skip [OF nb rx ok neq] .
            from "1.IH" [OF nbf Some p [symmetric] Inr refl okf refl neq this] k
            show ?thesis by simp
          qed
        qed
      qed
    qed
  qed
qed

lemma GetLedger_calls:
  "GetLedger c sequence = Some (res, c') \<Longrightarrow> length (calls c) \<le> length (calls c')"
  by (auto simp: GetLedger_def split: option.splits if_splits dest: getLedgerLoop_calls)

lemma waitForFirstLedger_calls:
  "waitForFirstLedger c = Some (e, c') \<Longrightarrow> calls c' = calls c"
  by (auto simp: waitForFirstLedger_def Let_def sendLedgerMeta_calls split: if_splits)

lemma ensureRunner_calls:
  "ensureRunner cfg path c = Inr (r, c') \<Longrightarrow> calls c' = calls c"
  by (auto simp: ensureRunner_def split: option.splits sum.splits)

lemma openOffline_calls:
  assumes "openOfflineReplaySubprocess cfg c from0 to0 = (None, c')"
  shows "length (calls c) < length (calls c')"
proof -
  obtain e1 c1 where cl: "Close c = (e1, c1)" by (cases "Close c")
  then have c1: "c1 = snd (Close c)" by simp
  show ?thesis
  proof (cases e1)
    case (Some err)
    with assms cl show ?thesis by (simp add: openOfflineReplaySubprocess_def)
  next
    case e1: None
    show ?thesis
    proof (cases "getLatestCheckpointSequence cfg")
      case (Inl err)
      with assms cl e1 show ?thesis by (simp add: openOfflineReplaySubprocess_def)
    next
      case (Inr latest)
      show ?thesis
      proof (cases "latest < from0")
        case True
        with assms cl e1 Inr show ?thesis by (simp add: openOfflineReplaySubprocess_def)
      next
        case lt: False
        show ?thesis
        proof (cases "ensureRunner cfg [] c1")
          case (Inl err)
          with assms cl e1 Inr lt show ?thesis
            by (simp add: openOfflineReplaySubprocess_def Let_def)
        next
          case (Inr p)
          obtain r c2 where p: "p = (r, c2)" by (cases p)
          with Inr have er: "ensureRunner cfg [] c1 = Inr (r, c2)" by simp
          from ensureRunner_calls [OF er] have k2: "calls c2 = calls c1" .
          show ?thesis
          proof (cases "catchupResult r")
            case (Some err)
            with assms cl e1 \<open>getLatestCheckpointSequence cfg = Inr latest\<close> lt er show ?thesis
              by (simp add: openOfflineReplaySubprocess_def Let_def)
          next
            case None
            with assms cl e1 \<open>getLatestCheckpointSequence cfg = Inr latest\<close> lt er
            have "length (calls c') = Suc (length (calls c2))"
              by (auto simp: openOfflineReplaySubprocess_def Let_def)
            with k2 c1 Close_calls [of c] show ?thesis by simp
          qed
        qed
      qed
    qed
  qed
qed

lemma openOnline_calls:
  assumes "openOnlineReplaySubprocess cfg c from0 = Some (None, c')"
    and "\<not> (lastLedger c = None \<and> nextLedger c \<noteq> 0 \<and> nextLedger c \<le> from0)"
  shows "length (calls c) < length (calls c')"
proof -
  obtain e1 c1 where cl: "Close c = (e1, c1)" by (cases "Close c")
  then have c1: "c1 = snd (Close c)" by simp
  note d = openOnlineReplaySubprocess_def
  show ?thesis
  proof (cases e1)
    case (Some err)
    with assms cl show ?thesis by (simp add: d)
  next
    case e1: None
    show ?thesis
    proof (cases "getLatestCheckpointSequence cfg")
      case (Inl err)
      with assms cl e1 show ?thesis by (simp add: d)
    next
      case lat: (Inr latest)
      show ?thesis
      proof (cases "latest + 2 * 64 < from0 \<or> (hcnetCoreRunner c1 = None \<and> configPath cfg = [])")
        case True
        with assms cl e1 lat show ?thesis by (auto simp: d split: if_splits)
      next
        case far: False
        show ?thesis
        proof (cases "ensureRunner cfg (configPath cfg) c1")
          case (Inl err)
          with assms cl e1 lat far show ?thesis by (auto simp: d)
        next
          case (Inr p)
          obtain r c2 where p: "p = (r, c2)" by (cases p)
          with Inr have er: "ensureRunner cfg (configPath cfg) c1 = Inr (r, c2)" by simp
          from ensureRunner_calls [OF er] have k2: "calls c2 = calls c1" .
          obtain runFrom ledgerHash nextLedger0 err0
            where rf: "runFromParams (archive cfg) from0 = (runFrom, ledgerHash, nextLedger0, err0)"
            by (cases "runFromParams (archive cfg) from0") auto
          show ?thesis
          proof (cases err0)
            case (Some err)
            with assms cl e1 lat far er rf show ?thesis by (auto simp: d)
          next
            case noerr: None
            show ?thesis
            proof (cases "runFromResult r")
              case (Some err)
              with assms cl e1 lat far er rf noerr show ?thesis by (auto simp: d Let_def)
            next
              case started: None
              let ?c3 = "c2\<lparr>calls := calls c2 @ [CallRunFrom runFrom ledgerHash]\<rparr>"
              let ?c4 = "?c3\<lparr>nextLedger := nextLedger0, lastLedger := None, blocking := False,
                  processExit := False, processErr := None, metaC := [], shutdown := True,
                  reading := Some 0\<rparr>"
              have k4: "length (calls ?c4) = Suc (length (calls c2))" by simp
              show ?thesis
              proof (cases "nextLedger0 < from0")
                case False
                with assms cl e1 lat far er rf noerr started have "c' = ?c4"
                  by (auto simp: d Let_def)
                with k4 k2 c1 Close_calls [of c] show ?thesis by simp
              next
                case True
                show ?thesis
                proof (cases "GetLedger (?c4\<lparr>blocking := True\<rparr>) from0")
                  case None
                  with assms cl e1 lat far er rf noerr started True show ?thesis
                    by (auto simp: d Let_def)
                next
                  case (Some g)
                  obtain res c5 where g: "g = (res, c5)" by (cases g)
                  with Some have gl: "GetLedger (?c4\<lparr>blocking := True\<rparr>) from0 = Some (res, c5)"
                    by simp
                  from GetLedger_calls [OF gl]
                  have k5: "Suc (length (calls c2)) \<le> length (calls c5)" by simp
                  from assms cl e1 lat far er rf noerr started True gl
                  have "calls c' = calls c5"
                    by (auto simp: d Let_def split: prod.splits option.splits)
                  with k5 k2 c1 Close_calls [of c] show ?thesis by simp
                qed
              qed
            qed
          qed
        qed
      qed
    qed
  qed
qed

lemma PrepareRange_not_prepared:
  assumes "IsPrepared c ledgerRange = (False, None)"
    and "PrepareRange cfg c ledgerRange = Some (None, c')"
  shows "length (calls c) < length (calls c')"
proof -
  from assms(1) have reuse:
    "\<not> bounded ledgerRange \<Longrightarrow>
       \<not> (lastLedger c = None \<and> nextLedger c \<noteq> 0 \<and> nextLedger c \<le> range_from ledgerRange)"
    by (auto simp: IsPrepared_def split: if_splits option.splits)
  show ?thesis
  proof (cases "bounded ledgerRange")
    case True
    obtain e1 c1 where op: "openOfflineReplaySubprocess cfg c (range_from ledgerRange)
        (range_to ledgerRange) = (e1, c1)"
      by (cases "openOfflineReplaySubprocess cfg c (range_from ledgerRange) (range_to ledgerRange)")
    with assms True have e1: "e1 = None"
      by (auto simp: PrepareRange_def split: option.splits)
    with assms True op have "waitForFirstLedger c1 = Some (None, c')"
      by (auto simp: PrepareRange_def split: option.splits)
    from waitForFirstLedger_calls [OF this] openOffline_calls [OF op [unfolded e1]]
    show ?thesis by simp
  next
    case False
    with assms obtain c1 where op: "openOnlineReplaySubprocess cfg c (range_from ledgerRange) =
        Some (None, c1)" and w: "waitForFirstLedger c1 = Some (None, c')"
      by (auto simp: PrepareRange_def split: option.splits)
    from waitForFirstLedger_calls [OF w] openOnline_calls [OF op reuse [OF False]]
    show ?thesis by simp
  qed
qed

text \<open>
  \<open>PrepareRange\<close> returns at once, with success and the backend untouched, exactly when
  \<open>IsPrepared\<close> holds: otherwise a successful call has started a runner.
\<close>

lemma PrepareRange_short_circuit:
  "PrepareRange cfg c ledgerRange = Some (None, c) \<longleftrightarrow> IsPrepared c ledgerRange = (True, None)"
proof
  assume "IsPrepared c ledgerRange = (True, None)"
  then show "PrepareRange cfg c ledgerRange = Some (None, c)" by (rule PrepareRange_prepared)
next
  assume a: "PrepareRange cfg c ledgerRange = Some (None, c)"
  show "IsPrepared c ledgerRange = (True, None)"
  proof (rule ccontr)
    assume "IsPrepared c ledgerRange \<noteq> (True, None)"
    moreover have "snd (IsPrepared c ledgerRange) = None"
      by (simp add: IsPrepared_def split: option.splits)
    ultimately have "IsPrepared c ledgerRange = (False, None)"
      by (cases "IsPrepared c ledgerRange") auto
    from PrepareRange_not_prepared [OF this a] show False by simp
  qed
qed

text \<open>
  C4. The code departs from the claim. With a bounded session that ends at ledger 3
  (\<open>nextLedger = 2\<close>, \<open>lastLedger = 3\<close>), \<open>IsPrepared\<close> accepts the bounded range \<open>[3, 9]\<close>
  and \<open>PrepareRange\<close> returns at once with the session as it was, although 9 exceeds
  \<open>lastLedger\<close>: the session serves ledger 3, closes, and ledger 4 of the range that was
  reported prepared cannot be read.
\<close>

theorem PrepareRange_ignores_range_to:
  "PrepareRange (testConfig [Frame (ledger 2), Frame (ledger 3)]) NewCaptive (BoundedRange 3 3) =
      Some (None, bounded_2_3) \<and>
   lastLedger bounded_2_3 = Some 3 \<and>
   IsPrepared bounded_2_3 (BoundedRange 3 9) = (True, None) \<and>
   PrepareRange (testConfig [Frame (ledger 2), Frame (ledger 3)]) bounded_2_3 (BoundedRange 3 9) =
      Some (None, bounded_2_3) \<and>
   GetLedger bounded_2_3 3 = Some ((True, ledger 3, None), closed_after_3) \<and>
   GetLedger closed_after_3 4 =
      Some ((False, emptyMeta, Some ''session is closed, call PrepareRange first''), closed_after_3)"
proof -
  note prep = PrepareRange_def IsPrepared_def BoundedRange_def
       openOfflineReplaySubprocess_def getLatestCheckpointSequence_def testArchive_def
       ensureRunner_def roundDownToFirstReplayAfterCheckpointStart_def ledgersPerCheckpoint_def
       waitForFirstLedger_def
  have a: "PrepareRange (testConfig [Frame (ledger 2), Frame (ledger 3)]) NewCaptive
      (BoundedRange 3 3) = Some (None, bounded_2_3)"
    by (simp add: prep NewCaptive_def bounded_2_3_def eval_defs)
  have b: "lastLedger bounded_2_3 = Some 3" by (simp add: bounded_2_3_def)
  have c: "IsPrepared bounded_2_3 (BoundedRange 3 9) = (True, None)"
    by (simp add: IsPrepared_def BoundedRange_def bounded_2_3_def)
  have d: "PrepareRange (testConfig [Frame (ledger 2), Frame (ledger 3)]) bounded_2_3
      (BoundedRange 3 9) = Some (None, bounded_2_3)"
    using c by (simp add: PrepareRange_def)
  have e: "GetLedger bounded_2_3 3 = Some ((True, ledger 3, None), closed_after_3)"
    by (simp add: bounded_2_3_def closed_after_3_def eval_defs getLedgerLoop.simps)
  have f: "GetLedger closed_after_3 4 =
      Some ((False, emptyMeta, Some ''session is closed, call PrepareRange first''), closed_after_3)"
    by (simp add: closed_after_3_def eval_defs)
  from a b c d e f show ?thesis by simp
qed

section \<open>Properties of the processor runner\<close>

text \<open>
  C9. \<open>checkIfProtocolVersionSupported\<close> asks the backend for the ledger. When the
  backend returns it, the check fails exactly when the protocol version of its header is
  greater than \<open>MaxSupportedProtocolVersion\<close>, and the error then is the message naming
  the version of the ledger, the latest supported version and the instruction to
  upgrade. (When the backend fails or has no such ledger, that is the error returned.)
\<close>

theorem checkIfProtocolVersionSupported_gate:
  "(ledgerBackend_GetLedger s (backend st) seq = Some ((True, m, None), b) \<longrightarrow>
      checkIfProtocolVersionSupported s st seq =
        Some (if MaxSupportedProtocolVersion < LedgerVersion (Header m) then
                Some (''This Aurora version does not support protocol version '' @
                      fmt_d (LedgerVersion (Header m)) @
                      ''. The latest supported protocol version is '' @
                      fmt_d MaxSupportedProtocolVersion @
                      ''. Please upgrade to the latest Aurora version.'')
              else None,
              st\<lparr>backend := b, trace := trace st @ [CallGetLedger seq]\<rparr>)) \<and>
   (ledgerBackend_GetLedger s (backend st) seq = Some ((found, m, Some e), b) \<longrightarrow>
      checkIfProtocolVersionSupported s st seq =
        Some (Some (Wrap e ''Error getting ledger''),
              st\<lparr>backend := b, trace := trace st @ [CallGetLedger seq]\<rparr>)) \<and>
   (ledgerBackend_GetLedger s (backend st) seq = Some ((False, m, None), b) \<longrightarrow>
      checkIfProtocolVersionSupported s st seq =
        Some (Some ''cannot check if protocol version supported: ledger does not exist'',
              st\<lparr>backend := b, trace := trace st @ [CallGetLedger seq]\<rparr>))"
  by (simp add: checkIfProtocolVersionSupported_def Let_def)

theorem checkIfProtocolVersionSupported_gate_witness:
  "checkIfProtocolVersionSupported testProcessorRunner emptyRun 100 =
     Some (Some ''This Aurora version does not support protocol version 200. The latest supported protocol version is 15. Please upgrade to the latest Aurora version.'',
           emptyRun\<lparr>backend := (), trace := [CallGetLedger 100]\<rparr>) \<and>
   checkIfProtocolVersionSupported testProcessorRunner emptyRun 63 =
     Some (None, emptyRun\<lparr>backend := (), trace := [CallGetLedger 63]\<rparr>)"
proof -
  let ?m = "\<lambda>seq v. \<lparr>Header = \<lparr>LedgerSeq = seq, LedgerVersion = v,
                        PreviousLedgerHash = [], BucketListHash = [0, 1, 2]\<rparr>, payload = 0\<rparr>"
  have a: "ledgerBackend_GetLedger testProcessorRunner (backend emptyRun) 100 =
      Some ((True, ?m 100 200, None), ())"
    by (simp add: testProcessorRunner_def testBackend_def)
  have b: "ledgerBackend_GetLedger testProcessorRunner (backend emptyRun) 63 =
      Some ((True, ?m 63 13, None), ())"
    by (simp add: testProcessorRunner_def testBackend_def)
  have f: "fmt_d 200 = ''200''" "fmt_d 15 = ''15''"
    by (simp_all add: fmt_d_def decimal.simps digit_def)
  have t: "trace emptyRun = []" by (simp add: emptyRun_def)
  from checkIfProtocolVersionSupported_gate [of testProcessorRunner emptyRun 100 "?m 100 200" "()"] a
  have x: "checkIfProtocolVersionSupported testProcessorRunner emptyRun 100 =
     Some (Some ''This Aurora version does not support protocol version 200. The latest supported protocol version is 15. Please upgrade to the latest Aurora version.'',
           emptyRun\<lparr>backend := (), trace := [CallGetLedger 100]\<rparr>)"
    by (simp add: MaxSupportedProtocolVersion_def f t)
  from checkIfProtocolVersionSupported_gate [of testProcessorRunner emptyRun 63 "?m 63 13" "()"] b
  have y: "checkIfProtocolVersionSupported testProcessorRunner emptyRun 63 =
     Some (None, emptyRun\<lparr>backend := (), trace := [CallGetLedger 63]\<rparr>)"
    by (simp add: MaxSupportedProtocolVersion_def t)
  from x y show ?thesis by simp
qed

subsection \<open>Properties of RunHistoryArchiveIngestion\<close>

lemma StreamChanges_trace:
  "StreamChanges p st reader = (e, st') \<Longrightarrow>
     backend st' = backend st \<and>
     (\<exists>new. trace st' = trace st @ new \<and> list_all sinkCall new)"
proof (induction p st reader rule: StreamChanges.induct)
  case (1 p st)
  then show ?case by auto
next
  case (2 p st err rest)
  then show ?case by auto
next
  case (3 p st change rest)
  show ?case
  proof (cases "ProcessChange p (store st) change")
    case (Pair r q)
    let ?st1 = "st\<lparr>store := q, trace := trace st @ [CallProcessChange change]\<rparr>"
    show ?thesis
    proof (cases r)
      case None
      with Pair "3.prems" have "StreamChanges p ?st1 rest = (e, st')" by simp
      from "3.IH" [OF Pair [symmetric] None this]
      obtain new where b: "backend st' = backend st"
        and t: "trace st' = trace st @ CallProcessChange change # new"
        and d: "list_all sinkCall new"
        by auto
      from d have "list_all sinkCall (CallProcessChange change # new)"
        by (simp add: sinkCall_def)
      with b t show ?thesis by blast
    next
      case (Some err)
      with Pair "3.prems" have "backend st' = backend st"
        and "trace st' = trace st @ [CallProcessChange change]" by auto
      moreover have "list_all sinkCall [CallProcessChange change]" by (simp add: sinkCall_def)
      ultimately show ?thesis by blast
    qed
  qed
qed

lemma streamAndCommit_trace:
  assumes "streamAndCommit p st reader = (e, st')"
  shows "backend st' = backend st \<and>
     (\<exists>new. trace st' = trace st @ new \<and> list_all sinkCall new)"
proof (cases "StreamChanges p st reader")
  case (Pair r st1)
  from StreamChanges_trace [OF Pair]
  obtain new where b: "backend st1 = backend st"
    and t: "trace st1 = trace st @ new" and d: "list_all sinkCall new" by auto
  show ?thesis
  proof (cases r)
    case (Some err)
    with Pair assms have "st' = st1" by (simp add: streamAndCommit_def)
    with b t d show ?thesis by blast
  next
    case None
    with Pair assms have "backend st' = backend st1" and "trace st' = trace st1 @ [CallCommit]"
      by (auto simp: streamAndCommit_def split: prod.splits option.splits)
    with b t have "backend st' = backend st" and "trace st' = trace st @ (new @ [CallCommit])"
      by simp_all
    moreover from d have "list_all sinkCall (new @ [CallCommit])" by (simp add: sinkCall_def)
    ultimately show ?thesis by blast
  qed
qed

text \<open>
  C2. For checkpoint 1 \<open>RunHistoryArchiveIngestion\<close> streams the genesis change-stream and
  commits: the backend and the archive are not asked anything, the only calls are to the
  processor. For any other checkpoint it first checks the protocol version, and a failed
  check is returned with the store untouched; then it compares the bucket list hash of
  the archive with the one in the header the backend returns for the checkpoint, byte by
  byte, and a mismatch is returned as an error with the store untouched and no change
  given to the processor; when they are equal it opens the snapshot of the archive,
  streams it and commits.
\<close>

theorem RunHistoryArchiveIngestion_validation:
  "(RunHistoryArchiveIngestion s st 1 =
      Some (streamAndCommit (buildChangeProcessor s historyArchiveSource 1) st
              (GenesisLedgerStateReader (NetworkPassphrase s))) \<and>
    (\<forall>e st'. RunHistoryArchiveIngestion s st 1 = Some (e, st') \<longrightarrow>
       backend st' = backend st \<and>
       (\<exists>new. trace st' = trace st @ new \<and> list_all sinkCall new))) \<and>
   (c \<noteq> 1 \<and> checkIfProtocolVersionSupported s st c = Some (Some e1, st1) \<longrightarrow>
      RunHistoryArchiveIngestion s st c =
        Some (Some (Wrap e1 ''Error while checking for supported protocol version''), st1) \<and>
      store st1 = store st \<and> trace st1 = trace st @ [CallGetLedger c]) \<and>
   (c \<noteq> 1 \<and>
    ledgerBackend_GetLedger s (backend st) c = Some ((True, m1, None), b1) \<and>
    LedgerVersion (Header m1) \<le> MaxSupportedProtocolVersion \<and>
    historyAdapter_BucketListHash s c = Inr h \<and>
    ledgerBackend_GetLedger s b1 c = Some ((True, m2, None), b2) \<longrightarrow>
      (h \<noteq> BucketListHash (Header m2) \<longrightarrow>
         RunHistoryArchiveIngestion s st c =
           Some (Some (Wrap (''Bucket list hash of history archive and ledger header does not match: '' @
                             fmt_x h @ '' '' @ fmt_x (BucketListHash (Header m2)))
                        ''Error validating bucket list from HAS''),
                 st\<lparr>backend := b2,
                    trace := trace st @ [CallGetLedger c, CallBucketListHash c, CallGetLedger c]\<rparr>)) \<and>
      (h = BucketListHash (Header m2) \<longrightarrow>
         RunHistoryArchiveIngestion s st c =
           (case historyAdapter_GetState s c of
              Inl err \<Rightarrow>
                Some (Some (Wrap err ''Error creating HAS reader''),
                      st\<lparr>backend := b2,
                         trace := trace st @ [CallGetLedger c, CallBucketListHash c,
                                              CallGetLedger c, CallGetState c]\<rparr>)
            | Inr changeReader \<Rightarrow>
                Some (streamAndCommit (buildChangeProcessor s historyArchiveSource c)
                        (st\<lparr>backend := b2,
                            trace := trace st @ [CallGetLedger c, CallBucketListHash c,
                                                 CallGetLedger c, CallGetState c]\<rparr>)
                        changeReader))))"
proof (intro conjI impI allI)
  show g: "RunHistoryArchiveIngestion s st 1 =
      Some (streamAndCommit (buildChangeProcessor s historyArchiveSource 1) st
              (GenesisLedgerStateReader (NetworkPassphrase s)))"
    by (simp add: RunHistoryArchiveIngestion_def)
  fix e st'
  assume "RunHistoryArchiveIngestion s st 1 = Some (e, st')"
  with g have sc: "streamAndCommit (buildChangeProcessor s historyArchiveSource 1) st
              (GenesisLedgerStateReader (NetworkPassphrase s)) = (e, st')" by simp
  from streamAndCommit_trace [OF sc]
  show "backend st' = backend st" and "\<exists>new. trace st' = trace st @ new \<and> list_all sinkCall new"
    by simp_all
next
  assume h: "c \<noteq> 1 \<and> checkIfProtocolVersionSupported s st c = Some (Some e1, st1)"
  then show "RunHistoryArchiveIngestion s st c =
        Some (Some (Wrap e1 ''Error while checking for supported protocol version''), st1)"
    by (simp add: RunHistoryArchiveIngestion_def)
  from h show "store st1 = store st"
    by (auto simp: checkIfProtocolVersionSupported_def Let_def
        split: option.splits prod.splits if_splits)
  from h show "trace st1 = trace st @ [CallGetLedger c]"
    by (auto simp: checkIfProtocolVersionSupported_def Let_def
        split: option.splits prod.splits if_splits)
next
  assume h: "c \<noteq> 1 \<and>
    ledgerBackend_GetLedger s (backend st) c = Some ((True, m1, None), b1) \<and>
    LedgerVersion (Header m1) \<le> MaxSupportedProtocolVersion \<and>
    historyAdapter_BucketListHash s c = Inr h \<and>
    ledgerBackend_GetLedger s b1 c = Some ((True, m2, None), b2)"
  then have chk: "checkIfProtocolVersionSupported s st c =
      Some (None, st\<lparr>backend := b1, trace := trace st @ [CallGetLedger c]\<rparr>)"
    by (simp add: checkIfProtocolVersionSupported_def Let_def not_less [symmetric])
  {
    assume ne: "h \<noteq> BucketListHash (Header m2)"
    with h have "validateBucketList s (st\<lparr>backend := b1, trace := trace st @ [CallGetLedger c]\<rparr>) c =
      Some (Some (''Bucket list hash of history archive and ledger header does not match: '' @
                             fmt_x h @ '' '' @ fmt_x (BucketListHash (Header m2))),
            st\<lparr>backend := b2,
               trace := trace st @ [CallGetLedger c, CallBucketListHash c, CallGetLedger c]\<rparr>)"
      by (simp add: validateBucketList_def Let_def)
    with h chk show "RunHistoryArchiveIngestion s st c =
           Some (Some (Wrap (''Bucket list hash of history archive and ledger header does not match: '' @
                             fmt_x h @ '' '' @ fmt_x (BucketListHash (Header m2)))
                        ''Error validating bucket list from HAS''),
                 st\<lparr>backend := b2,
                    trace := trace st @ [CallGetLedger c, CallBucketListHash c, CallGetLedger c]\<rparr>)"
      by (simp add: RunHistoryArchiveIngestion_def)
  }
  {
    assume eq: "h = BucketListHash (Header m2)"
    with h have "validateBucketList s (st\<lparr>backend := b1, trace := trace st @ [CallGetLedger c]\<rparr>) c =
      Some (None,
            st\<lparr>backend := b2,
               trace := trace st @ [CallGetLedger c, CallBucketListHash c, CallGetLedger c]\<rparr>)"
      by (simp add: validateBucketList_def Let_def)
    with h chk show "RunHistoryArchiveIngestion s st c =
           (case historyAdapter_GetState s c of
              Inl err \<Rightarrow>
                Some (Some (Wrap err ''Error creating HAS reader''),
                      st\<lparr>backend := b2,
                         trace := trace st @ [CallGetLedger c, CallBucketListHash c,
                                              CallGetLedger c, CallGetState c]\<rparr>)
            | Inr changeReader \<Rightarrow>
                Some (streamAndCommit (buildChangeProcessor s historyArchiveSource c)
                        (st\<lparr>backend := b2,
                            trace := trace st @ [CallGetLedger c, CallBucketListHash c,
                                                 CallGetLedger c, CallGetState c]\<rparr>)
                        changeReader))"
      by (simp add: RunHistoryArchiveIngestion_def Let_def split: sum.splits)
  }
qed


theorem RunHistoryArchiveIngestion_validation_witness:
  "RunHistoryArchiveIngestion testProcessorRunner emptyRun 1 =
     Some (None, \<lparr>backend = (),
                   store = map projr (GenesisLedgerStateReader ''Test Network''),
                   trace = map (CallProcessChange \<circ> projr) (GenesisLedgerStateReader ''Test Network'') @
                           [CallCommit]\<rparr>) \<and>
   RunHistoryArchiveIngestion testProcessorRunner emptyRun 100 =
     Some (Some ''Error while checking for supported protocol version: This Aurora version does not support protocol version 200. The latest supported protocol version is 15. Please upgrade to the latest Aurora version.'',
           \<lparr>backend = (), store = [], trace = [CallGetLedger 100]\<rparr>) \<and>
   RunHistoryArchiveIngestion testProcessorRunner emptyRun 64 =
     Some (Some ''Error validating bucket list from HAS: Bucket list hash of history archive and ledger header does not match: 0x000103 0x000102'',
           \<lparr>backend = (), store = [],
              trace = [CallGetLedger 64, CallBucketListHash 64, CallGetLedger 64]\<rparr>) \<and>
   RunHistoryArchiveIngestion testProcessorRunner emptyRun 63 =
     Some (None, \<lparr>backend = (),
                   store = map projr (GenesisLedgerStateReader ''Test Network''),
                   trace = [CallGetLedger 63, CallBucketListHash 63, CallGetLedger 63,
                            CallGetState 63] @
                           map (CallProcessChange \<circ> projr) (GenesisLedgerStateReader ''Test Network'') @
                           [CallCommit]\<rparr>)"
proof -
  let ?m = "\<lambda>seq v. \<lparr>Header = \<lparr>LedgerSeq = seq, LedgerVersion = v,
                        PreviousLedgerHash = [], BucketListHash = [0, 1, 2]\<rparr>, payload = 0\<rparr>"
  note fx = testProcessorRunner_def testBackend_def emptyRun_def recordingProcessor_def
  have f: "fmt_d 200 = ''200''" "fmt_d 15 = ''15''"
    by (simp_all add: fmt_d_def decimal.simps digit_def)
  have x: "fmt_x [0, 1, 3] = ''0x000103''" "fmt_x [0, 1, 2] = ''0x000102''"
    by (simp_all add: fmt_x_def EncodeToString_def hexDigit_def)
  have sc: "\<And>st. streamAndCommit recordingProcessor st (GenesisLedgerStateReader ''Test Network'') =
      (None, st\<lparr>store := store st @ map projr (GenesisLedgerStateReader ''Test Network''),
                trace := trace st @
                  map (CallProcessChange \<circ> projr) (GenesisLedgerStateReader ''Test Network'') @
                  [CallCommit]\<rparr>)"
    by (simp add: streamAndCommit_def GenesisLedgerStateReader_def recordingProcessor_def)
  have bp: "\<And>src seq. buildChangeProcessor testProcessorRunner src seq = recordingProcessor"
    "NetworkPassphrase testProcessorRunner = ''Test Network''"
    "\<And>seq. historyAdapter_GetState testProcessorRunner seq =
        Inr (GenesisLedgerStateReader ''Test Network'')"
    by (simp_all add: testProcessorRunner_def)
  have g1: "RunHistoryArchiveIngestion testProcessorRunner emptyRun 1 =
      Some (streamAndCommit (buildChangeProcessor testProcessorRunner historyArchiveSource 1) emptyRun
              (GenesisLedgerStateReader (NetworkPassphrase testProcessorRunner)))"
    using RunHistoryArchiveIngestion_validation [of testProcessorRunner emptyRun,
      THEN conjunct1, THEN conjunct1] .
  have g: "RunHistoryArchiveIngestion testProcessorRunner emptyRun 1 =
     Some (None, \<lparr>backend = (),
                   store = map projr (GenesisLedgerStateReader ''Test Network''),
                   trace = map (CallProcessChange \<circ> projr) (GenesisLedgerStateReader ''Test Network'') @
                           [CallCommit]\<rparr>)"
    unfolding g1 bp sc by (simp add: emptyRun_def)
  have c100: "(100::u32) \<noteq> 1 \<and> checkIfProtocolVersionSupported testProcessorRunner emptyRun 100 =
      Some (Some ''This Aurora version does not support protocol version 200. The latest supported protocol version is 15. Please upgrade to the latest Aurora version.'',
            \<lparr>backend = (), store = [], trace = [CallGetLedger 100]\<rparr>)"
    by (simp add: checkIfProtocolVersionSupported_def fx MaxSupportedProtocolVersion_def f)
  have p: "RunHistoryArchiveIngestion testProcessorRunner emptyRun 100 =
     Some (Some ''Error while checking for supported protocol version: This Aurora version does not support protocol version 200. The latest supported protocol version is 15. Please upgrade to the latest Aurora version.'',
           \<lparr>backend = (), store = [], trace = [CallGetLedger 100]\<rparr>)"
    using RunHistoryArchiveIngestion_validation [of testProcessorRunner emptyRun 100,
      THEN conjunct2, THEN conjunct1, THEN mp, OF c100, THEN conjunct1]
    by (simp add: Wrap_def)
  have h64: "(64::u32) \<noteq> 1 \<and>
    ledgerBackend_GetLedger testProcessorRunner (backend emptyRun) 64 = Some ((True, ?m 64 13, None), ()) \<and>
    LedgerVersion (Header (?m 64 13)) \<le> MaxSupportedProtocolVersion \<and>
    historyAdapter_BucketListHash testProcessorRunner 64 = Inr [0, 1, 3] \<and>
    ledgerBackend_GetLedger testProcessorRunner () 64 = Some ((True, ?m 64 13, None), ())"
    by (simp add: fx MaxSupportedProtocolVersion_def)
  have ne: "[0, 1, 3] \<noteq> BucketListHash (Header (?m 64 13))" by simp
  have b: "RunHistoryArchiveIngestion testProcessorRunner emptyRun 64 =
     Some (Some ''Error validating bucket list from HAS: Bucket list hash of history archive and ledger header does not match: 0x000103 0x000102'',
           \<lparr>backend = (), store = [],
              trace = [CallGetLedger 64, CallBucketListHash 64, CallGetLedger 64]\<rparr>)"
    using RunHistoryArchiveIngestion_validation [of testProcessorRunner emptyRun 64,
      THEN conjunct2, THEN conjunct2, THEN mp, OF h64, THEN conjunct1, THEN mp, OF ne]
    by (simp add: Wrap_def x emptyRun_def)
  have h63: "(63::u32) \<noteq> 1 \<and>
    ledgerBackend_GetLedger testProcessorRunner (backend emptyRun) 63 = Some ((True, ?m 63 13, None), ()) \<and>
    LedgerVersion (Header (?m 63 13)) \<le> MaxSupportedProtocolVersion \<and>
    historyAdapter_BucketListHash testProcessorRunner 63 = Inr [0, 1, 2] \<and>
    ledgerBackend_GetLedger testProcessorRunner () 63 = Some ((True, ?m 63 13, None), ())"
    by (simp add: fx MaxSupportedProtocolVersion_def)
  have eq: "[0, 1, 2] = BucketListHash (Header (?m 63 13))" by simp
  have a: "RunHistoryArchiveIngestion testProcessorRunner emptyRun 63 =
     Some (None, \<lparr>backend = (),
                   store = map projr (GenesisLedgerStateReader ''Test Network''),
                   trace = [CallGetLedger 63, CallBucketListHash 63, CallGetLedger 63,
                            CallGetState 63] @
                           map (CallProcessChange \<circ> projr) (GenesisLedgerStateReader ''Test Network'') @
                           [CallCommit]\<rparr>)"
    using RunHistoryArchiveIngestion_validation [of testProcessorRunner emptyRun 63,
      THEN conjunct2, THEN conjunct2, THEN mp, OF h63, THEN conjunct2, THEN mp, OF eq]
    unfolding bp by (simp add: emptyRun_def sc)
  from g p b a show ?thesis by simp
qed

section \<open>Properties of the offers processor\<close>

lemma checkRowsAffected_store:
  "checkRowsAffected n err action i q = (e, q') \<Longrightarrow> q' = q"
  by (auto simp: checkRowsAffected_def split: option.splits if_splits)

lemma flushChange_compactions:
  assumes "flushChange tableQOffers seq q change = (e, q')"
  shows "compactions q' = compactions q"
proof -
  have a: "\<And>row q1 err. BatchAdd tableQOffers q row = (err, q1) \<Longrightarrow> compactions q1 = compactions q"
    by (auto simp: tableQOffers_def)
  have b: "\<And>i r q1. RemoveOffer tableQOffers q i seq = (r, q1) \<Longrightarrow> compactions q1 = compactions q"
    by (auto simp: tableQOffers_def split: option.splits)
  have c: "\<And>row r q1. UpdateOffer tableQOffers q row = (r, q1) \<Longrightarrow> compactions q1 = compactions q"
    by (auto simp: tableQOffers_def split: option.splits)
  from assms show ?thesis
    unfolding flushChange_def
    by (auto split: option.splits sum.splits prod.splits
        dest!: checkRowsAffected_store dest: a b c)
qed

lemma flushChanges_compactions:
  "flushChanges tableQOffers seq q changes = (e, q') \<Longrightarrow> compactions q' = compactions q"
proof (induction changes arbitrary: q)
  case Nil
  then show ?case by simp
next
  case (Cons change rest)
  obtain r q1 where f: "flushChange tableQOffers seq q change = (r, q1)"
    by (cases "flushChange tableQOffers seq q change")
  from flushChange_compactions [OF f] have c1: "compactions q1 = compactions q" .
  show ?case
  proof (cases r)
    case None
    with f Cons.prems have "flushChanges tableQOffers seq q1 rest = (e, q')" by simp
    from Cons.IH [OF this] c1 show ?thesis by simp
  next
    case (Some err)
    with f Cons.prems have "q' = q1" by simp
    with c1 show ?thesis by simp
  qed
qed

lemma flushCache_compactions:
  assumes "flushCache tableQOffers p q = (e, q')"
  shows "compactions q' = compactions q"
proof -
  obtain r q1 where f: "flushChanges tableQOffers (sequence' p) q (cache p) = (r, q1)"
    by (cases "flushChanges tableQOffers (sequence' p) q (cache p)")
  from flushChanges_compactions [OF f] have c1: "compactions q1 = compactions q" .
  have "compactions (snd (BatchExec tableQOffers q1)) = compactions q1"
    by (simp add: tableQOffers_def split: option.splits)
  with assms f c1 show ?thesis
    by (auto simp: flushCache_def split: option.splits prod.splits)
qed

lemma CompactOffers_table:
  assumes "CompactOffers tableQOffers q cutOffSequence = ((n, None), q')"
  shows "compactions q' = compactions q @ [cutOffSequence]"
    and "\<forall>r \<in> set (offers q'). \<not> compacted cutOffSequence r"
  using assms by (auto simp: tableQOffers_def Let_def split: option.splits)

lemma CompactOffers_log:
  "compactions (snd (CompactOffers tableQOffers q cutOffSequence)) =
     compactions q @ [cutOffSequence]"
  by (simp add: tableQOffers_def Let_def split: option.splits)

text \<open>
  C8. A \<open>Commit\<close> of the offers processor at sequence \<open>S\<close> that succeeds has called
  \<open>CompactOffers\<close> exactly when \<open>S > 100\<close>, once and with the cut-off \<open>S - 100\<close>, and the
  offers table then holds no row whose \<open>deleted_at\<close> is below \<open>S - 100\<close>. For \<open>S \<le> 100\<close>
  no compaction is attempted, whether the commit succeeds or not.
\<close>

theorem OffersProcessor_Commit_compaction:
  "(OffersProcessor_Commit tableQOffers p q = (None, q') \<longrightarrow>
      compactions q' =
        compactions q @ (if 100 < sequence' p then [sequence' p - 100] else []) \<and>
      (100 < sequence' p \<longrightarrow>
         (\<forall>r \<in> set (offers q'). \<forall>d. deleted_at r = Some d \<longrightarrow> \<not> d < sequence' p - 100))) \<and>
   (sequence' p \<le> 100 \<longrightarrow>
      compactions (snd (OffersProcessor_Commit tableQOffers p q)) = compactions q)"
proof (intro conjI impI)
  obtain r q1 where f: "flushCache tableQOffers p q = (r, q1)"
    by (cases "flushCache tableQOffers p q")
  from flushCache_compactions [OF f] have c1: "compactions q1 = compactions q" .
  {
    assume ok: "OffersProcessor_Commit tableQOffers p q = (None, q')"
    with f have r: "r = None"
      by (auto simp: OffersProcessor_Commit_def split: option.splits)
    show "compactions q' =
        compactions q @ (if 100 < sequence' p then [sequence' p - 100] else [])"
    proof (cases "100 < sequence' p")
      case True
      with ok f r obtain n where "CompactOffers tableQOffers q1 (sequence' p - 100) = ((n, None), q')"
        by (auto simp: OffersProcessor_Commit_def offerCompactionWindow_def
            split: option.splits prod.splits)
      from CompactOffers_table(1) [OF this] c1 True show ?thesis by simp
    next
      case False
      with ok f r have "q' = q1"
        by (auto simp: OffersProcessor_Commit_def offerCompactionWindow_def)
      with c1 False show ?thesis by simp
    qed
    {
      assume big: "100 < sequence' p"
      with ok f r obtain n where "CompactOffers tableQOffers q1 (sequence' p - 100) = ((n, None), q')"
        by (auto simp: OffersProcessor_Commit_def offerCompactionWindow_def
            split: option.splits prod.splits)
      from CompactOffers_table(2) [OF this]
      show "\<forall>r \<in> set (offers q'). \<forall>d. deleted_at r = Some d \<longrightarrow> \<not> d < sequence' p - 100"
        by (auto simp: compacted_def)
    }
  }
  {
    assume small: "sequence' p \<le> 100"
    then have "\<not> offerCompactionWindow < sequence' p"
      by (simp add: offerCompactionWindow_def not_less)
    with f c1 show "compactions (snd (OffersProcessor_Commit tableQOffers p q)) = compactions q"
      by (auto simp: OffersProcessor_Commit_def split: option.splits)
  }
qed

theorem OffersProcessor_Commit_compaction_witness:
  "OffersProcessor_Commit tableQOffers (removal3 150) testStore =
     (None, \<lparr>offers = [\<lparr>offer = testOffer 2, deleted_at = Some 60\<rparr>,
                       \<lparr>offer = testOffer 3, deleted_at = Some 150\<rparr>],
             batch = [], compactions = [50], dbError = None\<rparr>) \<and>
   OffersProcessor_Commit tableQOffers (removal3 100) testStore =
     (None, \<lparr>offers = [\<lparr>offer = testOffer 1, deleted_at = Some 5\<rparr>,
                       \<lparr>offer = testOffer 2, deleted_at = Some 60\<rparr>,
                       \<lparr>offer = testOffer 3, deleted_at = Some 100\<rparr>],
             batch = [], compactions = [], dbError = None\<rparr>) \<and>
   compactions (snd (OffersProcessor_Commit tableQOffers (removal3 150) testStore)) = [50] \<and>
   compactions (snd (OffersProcessor_Commit tableQOffers (removal3 100) testStore)) = []"
proof -
  note ev = OffersProcessor_Commit_def flushCache_def flushChange_def checkRowsAffected_def
    MustOffer_def tableQOffers_def removal3_def testStore_def testOfferEntry_def testOffer_def
    liveOffer_def compacted_def offerCompactionWindow_def Let_def
  have a: "OffersProcessor_Commit tableQOffers (removal3 150) testStore =
     (None, \<lparr>offers = [\<lparr>offer = testOffer 2, deleted_at = Some 60\<rparr>,
                       \<lparr>offer = testOffer 3, deleted_at = Some 150\<rparr>],
             batch = [], compactions = [50], dbError = None\<rparr>)"
    by (simp add: ev)
  have b: "OffersProcessor_Commit tableQOffers (removal3 100) testStore =
     (None, \<lparr>offers = [\<lparr>offer = testOffer 1, deleted_at = Some 5\<rparr>,
                       \<lparr>offer = testOffer 2, deleted_at = Some 60\<rparr>,
                       \<lparr>offer = testOffer 3, deleted_at = Some 100\<rparr>],
             batch = [], compactions = [], dbError = None\<rparr>)"
    by (simp add: ev)
  have s: "sequence' (removal3 150) = 150" "sequence' (removal3 100) = 100"
    "compactions testStore = []"
    by (simp_all add: removal3_def testStore_def)
  from OffersProcessor_Commit_compaction [of "removal3 150" testStore, THEN conjunct1, THEN mp, OF a,
      THEN conjunct1]
  have c: "compactions (snd (OffersProcessor_Commit tableQOffers (removal3 150) testStore)) = [50]"
    by (simp add: a s)
  have le: "sequence' (removal3 100) \<le> 100" by (simp add: s)
  from OffersProcessor_Commit_compaction [of "removal3 100" testStore, THEN conjunct2, THEN mp, OF le]
  have d: "compactions (snd (OffersProcessor_Commit tableQOffers (removal3 100) testStore)) = []"
    by (simp add: s)
  from a b c d show ?thesis by simp
qed

end
